theory Spec2Isabelle
  imports Complex_Main
begin

section \<open>Python values as the Metrica parser sees them\<close>

text \<open>
  \<open>_get_event_data\<close> works on the value returned by \<open>json.loads\<close>: nested dicts,
  lists, strings, numbers, booleans and \<open>None\<close>, all accessed dynamically. A dict is an
  association list read with \<open>map_of\<close> (the first binding of a key is the dict's value
  for it). Python's unbounded \<open>int\<close> is \<open>int\<close>; a finite Python \<open>float\<close> is the \<open>real\<close> number
  it holds (infinities and NaN are outside the model). The rescaling of the coordinate
  columns rounds as \<open>float64\<close> arithmetic does; \<open>//\<close> and \<open>%\<close> on the start time and the
  frame offset of the timestamps are taken over the reals.
\<close>

datatype pyval =
    PNone
  | PBool bool
  | PInt int
  | PFloat real
  | PStr string
  | PList "pyval list"
  | PDict "(string \<times> pyval) list"

text \<open>Every exception the modelled code can raise is a value; \<open>Inl\<close> carries it.\<close>

datatype py_error =
    KeyError string
  | IndexError
  | TypeError string
  | AttributeError
  | ZeroDivisionError
  | FileNotFoundError string

type_synonym 'a result = "py_error + 'a"

definition bind_result :: "'a result \<Rightarrow> ('a \<Rightarrow> 'b result) \<Rightarrow> 'b result" where
  "bind_result m f = (case m of Inl e \<Rightarrow> Inl e | Inr x \<Rightarrow> f x)"

text \<open>\<open>obj[key]\<close> with a string key: only a dict supports it, and a dict without the
  key raises \<open>KeyError\<close>.\<close>

fun getitem :: "pyval \<Rightarrow> string \<Rightarrow> pyval result" where
  "getitem (PDict kvs) k = (case map_of kvs k of None \<Rightarrow> Inl (KeyError k) | Some v \<Rightarrow> Inr v)"
| "getitem _ k = Inl (TypeError ''subscript'')"

text \<open>\<open>s.lower()\<close>: defined for \<open>str\<close> only; the ASCII capitals are folded, every other
  character is kept.\<close>

definition lower_char :: "char \<Rightarrow> char" where
  "lower_char c =
     (case map_of (zip ''ABCDEFGHIJKLMNOPQRSTUVWXYZ'' ''abcdefghijklmnopqrstuvwxyz'') c of
        None \<Rightarrow> c | Some d \<Rightarrow> d)"

fun lower :: "pyval \<Rightarrow> string result" where
  "lower (PStr s) = Inr (map lower_char s)"
| "lower _ = Inl AttributeError"

text \<open>\<open>a == b\<close> on such values: numbers compare by value across \<open>bool\<close>, \<open>int\<close> and
  \<open>float\<close>; strings, lists and dicts compare by content (a dict regardless of order).\<close>

fun num_of :: "pyval \<Rightarrow> real option" where
  "num_of (PBool b) = Some (if b then 1 else 0)"
| "num_of (PInt i) = Some (of_int i)"
| "num_of (PFloat r) = Some r"
| "num_of _ = None"

function (sequential) py_eq :: "pyval \<Rightarrow> pyval \<Rightarrow> bool" where
  "py_eq PNone PNone = True"
| "py_eq (PStr a) (PStr b) = (a = b)"
| "py_eq (PList xs) (PList ys) =
     (length xs = length ys \<and> (\<forall>(x, y) \<in> set (zip xs ys). py_eq x y))"
| "py_eq (PDict xs) (PDict ys) =
     ((\<forall>k \<in> set (map fst ys). map_of xs k \<noteq> None) \<and>
      (\<forall>k \<in> set (map fst xs).
         case map_of xs k of None \<Rightarrow> False
         | Some v \<Rightarrow> (case map_of ys k of None \<Rightarrow> False | Some w \<Rightarrow> py_eq v w)))"
| "py_eq a b = (case num_of a of None \<Rightarrow> False
                | Some x \<Rightarrow> (case num_of b of None \<Rightarrow> False | Some y \<Rightarrow> x = y))"
  by pat_completeness auto

lemma size_member: "x \<in> set xs \<Longrightarrow> size x < Suc (size_list size xs)"
  by (induction xs) auto

lemma size_zip_fst: "(x, y) \<in> set (zip xs ys) \<Longrightarrow> size x < Suc (size_list size xs)"
  by (rule size_member) (erule set_zip_leftD)

lemma size_map_of:
  "map_of xs k = Some v \<Longrightarrow> size v < Suc (size_list (size_prod (\<lambda>_. 0) size) xs)"
  by (induction xs) (auto split: if_splits)

termination py_eq
  by (relation "measure (\<lambda>(a, b). size a)") (auto dest: size_map_of size_zip_fst)

text \<open>\<open>x // n\<close> and \<open>x % n\<close> for a nonzero integer literal \<open>n\<close>: numbers only
  (\<open>bool\<close> counts as 0 or 1); both round towards minus infinity.\<close>

fun py_floordiv :: "pyval \<Rightarrow> int \<Rightarrow> pyval result" where
  "py_floordiv (PBool b) n = Inr (PInt ((if b then 1 else 0) div n))"
| "py_floordiv (PInt i) n = Inr (PInt (i div n))"
| "py_floordiv (PFloat r) n = Inr (PFloat (of_int \<lfloor>r / of_int n\<rfloor>))"
| "py_floordiv _ n = Inl (TypeError ''//'')"

fun py_mod :: "pyval \<Rightarrow> int \<Rightarrow> pyval result" where
  "py_mod (PBool b) n = Inr (PInt ((if b then 1 else 0) mod n))"
| "py_mod (PInt i) n = Inr (PInt (i mod n))"
| "py_mod (PFloat r) n = Inr (PFloat (r - of_int n * of_int \<lfloor>r / of_int n\<rfloor>))"
| "py_mod _ n = Inl (TypeError ''%'')"

text \<open>\<open>x[1:]\<close>: a string or a list without its first element; anything else raises.\<close>

fun py_tail :: "pyval \<Rightarrow> pyval result" where
  "py_tail (PStr s) = Inr (PStr (drop 1 s))"
| "py_tail (PList xs) = Inr (PList (drop 1 xs))"
| "py_tail _ = Inl (TypeError ''slice'')"

text \<open>\<open>for x in obj\<close>: a list yields its elements, a dict its keys, a string its
  characters; nothing else is iterable.\<close>

fun py_iter :: "pyval \<Rightarrow> pyval list result" where
  "py_iter (PList xs) = Inr xs"
| "py_iter (PDict kvs) = Inr (map PStr (remdups (map fst kvs)))"
| "py_iter (PStr s) = Inr (map (\<lambda>c. PStr [c]) s)"
| "py_iter _ = Inl (TypeError ''iter'')"

section \<open>The event table\<close>

text \<open>
  \<open>databallpy.utils\<close> is not part of the sources at hand, so the sentinel
  \<open>MISSING_INT\<close> and the converters \<open>_to_int\<close> and \<open>_to_float\<close> are parameters of
  the parser.
\<close>

record utils =
  MISSING_INT :: int
  to_int :: "pyval \<Rightarrow> int"
  to_float :: "pyval \<Rightarrow> real"

text \<open>One row of the \<open>DataFrame\<close> built from \<open>result_dict\<close>; the fields are its
  columns, in the dict's order.\<close>

record event_row =
  event_id :: pyval
  type_id :: pyval
  databallpy_event :: "string option"
  period_id :: pyval
  minutes :: int
  seconds :: real
  player_id :: int
  player_name :: pyval
  team_id :: pyval
  outcome :: int
  start_x :: real
  start_y :: real
  to_player_id :: int
  to_player_name :: pyval
  end_x :: real
  end_y :: real
  td_frame :: pyval
  metrica_event :: string

definition metrica_databallpy_map :: "(string \<times> string) list" where
  "metrica_databallpy_map =
     [(''pass'', ''pass''), (''carry'', ''dribble''), (''shot'', ''shot'')]"

definition in_possession_events :: "string list" where
  "in_possession_events = [''pass'', ''carry'', ''recovery'', ''shot'']"

definition out_of_possession_events :: "string list" where
  "out_of_possession_events = [''fault received'', ''ball out'', ''ball lost'']"

definition getitem2 :: "pyval \<Rightarrow> string \<Rightarrow> string \<Rightarrow> pyval result" where
  "getitem2 obj k1 k2 = bind_result (getitem obj k1) (\<lambda>inner. getitem inner k2)"

text \<open>
  Lines 202--213 of \<open>_get_event_data\<close>, run when \<open>check_outcome_last_event\<close> is set:
  \<open>(A and B) or (C and D)\<close> evaluates \<open>event["team"]["id"]\<close> only behind a true \<open>A\<close>
  or \<open>C\<close>; \<open>[-1]\<close> on an empty column raises \<open>IndexError\<close>. The last entries of
  the \<open>team_id\<close> and \<open>outcome\<close> columns belong to the previous record at this point.
\<close>

definition same_team_as_last :: "event_row list \<Rightarrow> pyval \<Rightarrow> bool result" where
  "same_team_as_last rows event =
     (if rows = [] then Inl IndexError
      else bind_result (getitem2 event ''team'' ''id'')
             (\<lambda>t. Inr (py_eq (team_id (last rows)) t)))"

definition set_last_outcome :: "event_row list \<Rightarrow> int \<Rightarrow> event_row list result" where
  "set_last_outcome rows v =
     (if rows = [] then Inl IndexError
      else Inr (butlast rows @ [(last rows)\<lparr>outcome := v\<rparr>]))"

definition lost_possession :: "event_row list \<Rightarrow> string \<Rightarrow> pyval \<Rightarrow> bool result" where
  "lost_possession rows event_name event =
     bind_result
       (if event_name \<in> set out_of_possession_events
        then same_team_as_last rows event else Inr False)
       (\<lambda>first.
          if first then Inr True
          else if event_name \<in> set in_possession_events
          then bind_result (same_team_as_last rows event) (\<lambda>same. Inr (\<not> same))
          else Inr False)"

definition resolve_last_outcome ::
  "event_row list \<Rightarrow> string \<Rightarrow> pyval \<Rightarrow> event_row list result" where
  "resolve_last_outcome rows event_name event =
     bind_result (lost_possession rows event_name event)
       (\<lambda>lost. set_last_outcome rows (if lost then 0 else 1))"

text \<open>Lines 216--226: the outcome of a shot. The loop over a list of sub-types stops at
  the first one named \<open>GOAL\<close>.\<close>

fun goal_among :: "pyval list \<Rightarrow> int result" where
  "goal_among [] = Inr 0"
| "goal_among (sub # subs) =
     bind_result (getitem sub ''name'')
       (\<lambda>n. if py_eq n (PStr ''GOAL'') then Inr 1 else goal_among subs)"

definition shot_result :: "pyval \<Rightarrow> int result" where
  "shot_result event =
     bind_result (getitem event ''subtypes'')
       (\<lambda>subtypes.
          case subtypes of
            PList subs \<Rightarrow> goal_among subs
          | _ \<Rightarrow> bind_result (getitem subtypes ''name'')
                   (\<lambda>n. Inr (if py_eq n (PStr ''GOAL'') then 1 else 0)))"

text \<open>Lines 237--242: the receiving player.\<close>

definition to_player :: "utils \<Rightarrow> pyval \<Rightarrow> (int \<times> pyval) result" where
  "to_player u event =
     bind_result (getitem event ''to'')
       (\<lambda>to.
          if to \<noteq> PNone
          then bind_result (getitem to ''id'') (\<lambda>i.
               bind_result (py_tail i) (\<lambda>tl.
               bind_result (getitem to ''name'') (\<lambda>n.
               Inr (to_int u tl, n))))
          else Inr (MISSING_INT u, PNone))"

text \<open>
  One pass of the loop body (lines 191--245). The eighteen column lists grow in step and
  an exception discards all of them, so the state is the list of finished rows together
  with \<open>check_outcome_last_event\<close>; the reads happen in the order of the source, which
  fixes the exception raised by a malformed record.
\<close>

definition process_event ::
  "utils \<Rightarrow> event_row list \<times> bool \<Rightarrow> pyval \<Rightarrow> (event_row list \<times> bool) result" where
  "process_event u st event =
     bind_result (getitem event ''index'') (\<lambda>index.
     bind_result (getitem2 event ''type'' ''id'') (\<lambda>tid.
     bind_result (getitem2 event ''type'' ''name'') (\<lambda>raw_name.
     bind_result (lower raw_name) (\<lambda>event_name.
     bind_result (getitem event ''period'') (\<lambda>period.
     bind_result (getitem2 event ''start'' ''time'') (\<lambda>time.
     bind_result (py_floordiv time 60) (\<lambda>mins.
     bind_result (py_mod time 60) (\<lambda>secs.
     bind_result (getitem2 event ''from'' ''id'') (\<lambda>from_id.
     bind_result (py_tail from_id) (\<lambda>from_tl.
     bind_result (getitem2 event ''from'' ''name'') (\<lambda>from_name.
     bind_result
       (if snd st then resolve_last_outcome (fst st) event_name event else Inr (fst st))
       (\<lambda>rows.
     bind_result
       (if event_name = ''shot'' then shot_result event else Inr (MISSING_INT u))
       (\<lambda>oc.
     bind_result (getitem2 event ''team'' ''id'') (\<lambda>team.
     bind_result (getitem2 event ''start'' ''x'') (\<lambda>sx.
     bind_result (getitem2 event ''start'' ''y'') (\<lambda>sy.
     bind_result (to_player u event) (\<lambda>to.
     bind_result (getitem2 event ''end'' ''x'') (\<lambda>ex.
     bind_result (getitem2 event ''end'' ''y'') (\<lambda>ey.
     bind_result (getitem2 event ''start'' ''frame'') (\<lambda>frame.
     Inr (rows @
            [\<lparr>event_id = index, type_id = tid, databallpy_event = None,
              period_id = period, minutes = to_int u mins, seconds = to_float u secs,
              player_id = to_int u from_tl, player_name = from_name, team_id = team,
              outcome = oc, start_x = to_float u sx, start_y = to_float u sy,
              to_player_id = fst to, to_player_name = snd to,
              end_x = to_float u ex, end_y = to_float u ey, td_frame = frame,
              metrica_event = event_name\<rparr>],
          event_name \<in> set [''pass'', ''carry''])))))))))))))))))))))"

text \<open>The \<open>for\<close> loop: the first exception ends it.\<close>

fun process_events ::
  "utils \<Rightarrow> event_row list \<times> bool \<Rightarrow> pyval list \<Rightarrow> (event_row list \<times> bool) result" where
  "process_events u st [] = Inr st"
| "process_events u st (event # events) =
     bind_result (process_event u st event) (\<lambda>st'. process_events u st' events)"

text \<open>Lines 247--251: \<open>events["metrica_event"].map(metrica_databallpy_map)\<close>, a label
  the table does not hold giving \<open>None\<close>.\<close>

definition map_databallpy_event :: "event_row \<Rightarrow> event_row" where
  "map_databallpy_event r =
     r\<lparr>databallpy_event := map_of metrica_databallpy_map (metrica_event r)\<rparr>"

text \<open>
  \<open>_get_event_data\<close> from \<open>events_dict\<close> on (line 162): reading the file, detecting its
  encoding and \<open>json.loads\<close> are library calls outside the model.
\<close>

definition get_event_data :: "utils \<Rightarrow> pyval \<Rightarrow> event_row list result" where
  "get_event_data u events_dict =
     bind_result (getitem events_dict ''data'') (\<lambda>data.
     bind_result (py_iter data) (\<lambda>events.
     bind_result (process_events u ([], False) events) (\<lambda>st.
     Inr (map map_databallpy_event (fst st)))))"
section \<open>What the loop establishes\<close>

text \<open>The label and the team a record carries, read as the loop reads them:
  \<open>event["type"]["name"].lower()\<close> and \<open>event["team"]["id"]\<close>.\<close>

definition event_name_of :: "pyval \<Rightarrow> string result" where
  "event_name_of event = bind_result (getitem2 event ''type'' ''name'') lower"

definition event_team_of :: "pyval \<Rightarrow> pyval result" where
  "event_team_of event = getitem2 event ''team'' ''id''"

text \<open>The condition of line 203 on the next record's label and the two team ids.\<close>

definition loses_ball :: "string \<Rightarrow> pyval \<Rightarrow> pyval \<Rightarrow> bool" where
  "loses_ball next_name team next_team =
     (next_name \<in> set out_of_possession_events \<and> py_eq team next_team \<or>
      next_name \<in> set in_possession_events \<and> \<not> py_eq team next_team)"

lemma bind_result_Inr: "(bind_result m f = Inr y) = (\<exists>x. m = Inr x \<and> f x = Inr y)"
  by (cases m) (simp_all add: bind_result_def)

lemma bind_result_Inr_simp [simp]: "bind_result (Inr x) f = f x"
  by (simp add: bind_result_def)

lemma bind_result_Inl_simp [simp]: "bind_result (Inl e) f = Inl e"
  by (simp add: bind_result_def)

lemma possession_disjoint:
  "n \<in> set out_of_possession_events \<Longrightarrow> n \<notin> set in_possession_events"
  by (auto simp: out_of_possession_events_def in_possession_events_def)

lemma resolve_last_outcome_Inr:
  assumes "resolve_last_outcome rows n event = Inr rows1"
    and "event_team_of event = Inr t"
  shows "rows \<noteq> [] \<and>
         rows1 = butlast rows @ [(last rows)\<lparr>outcome := (if loses_ball n (team_id (last rows)) t then 0 else 1)\<rparr>]"
  using assms
  by (auto simp: resolve_last_outcome_def lost_possession_def same_team_as_last_def
      set_last_outcome_def event_team_of_def loses_ball_def bind_result_Inr
      dest: possession_disjoint split: if_splits)

lemma process_event_Inr:
  assumes "process_event u (rows, chk) event = Inr (rows', chk')"
  shows "rows' \<noteq> [] \<and>
         event_name_of event = Inr (metrica_event (last rows')) \<and>
         event_team_of event = Inr (team_id (last rows')) \<and>
         chk' = (metrica_event (last rows') \<in> {''pass'', ''carry''}) \<and>
         (if chk then resolve_last_outcome rows (metrica_event (last rows')) event
          else Inr rows) = Inr (butlast rows') \<and>
         (if metrica_event (last rows') = ''shot'' then shot_result event
          else Inr (MISSING_INT u)) = Inr (outcome (last rows')) \<and>
         to_player u event = Inr (to_player_id (last rows'), to_player_name (last rows')) \<and>
         databallpy_event (last rows') = None"
  using assms unfolding process_event_def bind_result_Inr
  apply (elim exE conjE)
  apply (simp only: sum.inject prod.inject)
  apply (elim conjE)
  apply hypsubst
  apply (simp add: event_name_of_def event_team_of_def)
  apply (cases chk; simp)
  done


lemma process_events_snoc:
  "process_events u st (evs @ [e]) =
     bind_result (process_events u st evs) (\<lambda>st'. process_event u st' e)"
proof (induction evs arbitrary: st)
  case Nil
  show ?case by (cases "process_event u st e") simp_all
next
  case (Cons a evs)
  show ?case by (cases "process_event u st a") (simp_all add: Cons.IH)
qed

text \<open>
  The invariant of the loop. After the records \<open>evs\<close> the table has one row per record;
  row \<open>i\<close> holds the label, team and receiver of record \<open>i\<close>, and its outcome is the
  shot's result, the look-ahead verdict once record \<open>i + 1\<close> has been seen, or the
  sentinel. \<open>check_outcome_last_event\<close> is set exactly when the last record was a pass or
  a carry.
\<close>

definition row_ok :: "utils \<Rightarrow> pyval list \<Rightarrow> event_row list \<Rightarrow> nat \<Rightarrow> bool" where
  "row_ok u evs rows i \<longleftrightarrow>
     event_name_of (evs ! i) = Inr (metrica_event (rows ! i)) \<and>
     event_team_of (evs ! i) = Inr (team_id (rows ! i)) \<and>
     to_player u (evs ! i) = Inr (to_player_id (rows ! i), to_player_name (rows ! i)) \<and>
     databallpy_event (rows ! i) = None \<and>
     (if metrica_event (rows ! i) = ''shot''
      then shot_result (evs ! i) = Inr (outcome (rows ! i))
      else if metrica_event (rows ! i) \<in> {''pass'', ''carry''} \<and> Suc i < length evs
      then outcome (rows ! i) =
             (if loses_ball (metrica_event (rows ! Suc i)) (team_id (rows ! i))
                   (team_id (rows ! Suc i)) then 0 else 1)
      else outcome (rows ! i) = MISSING_INT u)"

definition table_ok :: "utils \<Rightarrow> pyval list \<Rightarrow> event_row list \<Rightarrow> bool \<Rightarrow> bool" where
  "table_ok u evs rows chk \<longleftrightarrow>
     length rows = length evs \<and>
     chk = (evs \<noteq> [] \<and> metrica_event (last rows) \<in> {''pass'', ''carry''}) \<and>
     (\<forall>i < length evs. row_ok u evs rows i)"

lemma table_ok_step:
  assumes ok: "table_ok u evs rows0 chk0"
    and step: "process_event u (rows0, chk0) e = Inr (rows, chk)"
  shows "table_ok u (evs @ [e]) rows chk"
proof -
  note s = process_event_Inr[OF step]
  define r where "r = last rows"
  have ne: "rows \<noteq> []" using s by simp
  have len0: "length rows0 = length evs" using ok by (simp add: table_ok_def)
  have name: "event_name_of e = Inr (metrica_event r)"
    and team: "event_team_of e = Inr (team_id r)"
    and chk: "chk = (metrica_event r \<in> {''pass'', ''carry''})"
    and oc: "(if metrica_event r = ''shot'' then shot_result e else Inr (MISSING_INT u))
              = Inr (outcome r)"
    and top: "to_player u e = Inr (to_player_id r, to_player_name r)"
    and dbp: "databallpy_event r = None"
    using s by (simp_all add: r_def)
  have bl: "(if chk0 then resolve_last_outcome rows0 (metrica_event r) e else Inr rows0)
              = Inr (butlast rows)"
    using s by (cases chk0) (simp_all add: r_def)
  have rows: "rows = butlast rows @ [r]" using ne by (simp add: r_def)
  have new_ok: "row_ok u (evs @ [e]) (pre @ [r]) (length evs)" if "length pre = length evs" for pre
    using that name team oc top dbp by (auto simp: row_ok_def nth_append split: if_splits)
  show ?thesis
  proof (cases chk0)
    case False
    then have b: "butlast rows = rows0" using bl by simp
    have rr: "rows = rows0 @ [r]" using rows b by simp
    have last0: "evs \<noteq> [] \<longrightarrow> metrica_event (last rows0) \<notin> {''pass'', ''carry''}"
      using ok False by (auto simp: table_ok_def)
    have old: "row_ok u (evs @ [e]) (rows0 @ [r]) i" if i: "i < length evs" for i
    proof -
      have o: "row_ok u evs rows0 i" using ok i by (simp add: table_ok_def)
      show ?thesis
      proof (cases "Suc i < length evs")
        case True
        then show ?thesis using o i len0 by (simp add: row_ok_def nth_append)
      next
        case F: False
        then have "i = length rows0 - 1" and "rows0 \<noteq> []" using i len0 by auto
        then have "rows0 ! i = last rows0" by (simp add: last_conv_nth)
        moreover have "metrica_event (last rows0) \<notin> {''pass'', ''carry''}"
          using last0 i by auto
        ultimately show ?thesis using o i len0 F by (auto simp: row_ok_def nth_append)
      qed
    qed
    show ?thesis
      unfolding table_ok_def rr using len0 chk old new_ok[of rows0]
      by (auto simp: less_Suc_eq r_def)
  next
    case True
    then have res: "resolve_last_outcome rows0 (metrica_event r) e = Inr (butlast rows)"
      using bl by simp
    note ro = resolve_last_outcome_Inr[OF res team]
    define v where "v = (if loses_ball (metrica_event r) (team_id (last rows0)) (team_id r)
                         then 0 else 1 :: int)"
    define pre where "pre = butlast rows0 @ [(last rows0)\<lparr>outcome := v\<rparr>]"
    have ne0: "rows0 \<noteq> []" and b: "butlast rows = pre" using ro by (simp_all add: pre_def v_def)
    have rr: "rows = pre @ [r]" using rows b by simp
    have evne: "evs \<noteq> []" using len0 ne0 by auto
    have lenp: "length pre = length evs" using len0 evne by (cases evs) (simp_all add: pre_def)
    have last0: "metrica_event (last rows0) \<in> {''pass'', ''carry''}"
      using ok True by (simp add: table_ok_def)
    have old: "row_ok u (evs @ [e]) (pre @ [r]) i" if i: "i < length evs" for i
    proof -
      have o: "row_ok u evs rows0 i" using ok i by (simp add: table_ok_def)
      show ?thesis
      proof (cases "Suc i < length evs")
        case T: True
        then have pi: "pre ! i = rows0 ! i"
          using len0 by (simp add: pre_def nth_append nth_butlast)
        have "metrica_event (pre ! Suc i) = metrica_event (rows0 ! Suc i) \<and>
              team_id (pre ! Suc i) = team_id (rows0 ! Suc i)"
        proof (cases "Suc i = length evs - 1")
          case True
          then have "pre ! Suc i = (last rows0)\<lparr>outcome := v\<rparr>" and "rows0 ! Suc i = last rows0"
            using len0 ne0 by (simp_all add: pre_def nth_append last_conv_nth)
          then show ?thesis by simp
        next
          case False
          then have "pre ! Suc i = rows0 ! Suc i"
            using T len0 by (simp add: pre_def nth_append nth_butlast)
          then show ?thesis by simp
        qed
        then show ?thesis using o i lenp T pi by (simp add: row_ok_def nth_append)
      next
        case F: False
        then have ii: "i = length evs - 1" using i by simp
        have pi: "pre ! i = (last rows0)\<lparr>outcome := v\<rparr>"
          using ii len0 ne0 by (simp add: pre_def nth_append)
        have ri: "rows0 ! i = last rows0" using ii len0 ne0 by (simp add: last_conv_nth)
        have si: "(pre @ [r]) ! Suc i = r" using ii lenp evne by (simp add: nth_append)
        show ?thesis using o i lenp last0 F
          unfolding row_ok_def si
          by (auto simp: nth_append pi ri v_def)
      qed
    qed
    show ?thesis
      unfolding table_ok_def rr using lenp chk old new_ok[of pre]
      by (auto simp: less_Suc_eq r_def)
  qed
qed

lemma process_events_table_ok:
  "process_events u ([], False) evs = Inr (rows, chk) \<Longrightarrow> table_ok u evs rows chk"
proof (induction evs arbitrary: rows chk rule: rev_induct)
  case Nil
  then show ?case by (simp add: table_ok_def)
next
  case (snoc e evs)
  from snoc.prems obtain st where st: "process_events u ([], False) evs = Inr st"
    and step: "process_event u st e = Inr (rows, chk)"
    by (auto simp: process_events_snoc bind_result_Inr)
  obtain rows0 chk0 where [simp]: "st = (rows0, chk0)" by (cases st)
  show ?case using table_ok_step[OF snoc.IH[of rows0 chk0]] st step by simp
qed

text \<open>The records the loop visits: \<open>for event in events_dict["data"]\<close>.\<close>

definition event_stream :: "pyval \<Rightarrow> pyval list result" where
  "event_stream events_dict = bind_result (getitem events_dict ''data'') py_iter"

lemma get_event_data_Inr:
  assumes "get_event_data u events_dict = Inr table" and "event_stream events_dict = Inr evs"
  shows "\<exists>rows chk. process_events u ([], False) evs = Inr (rows, chk) \<and>
           table = map map_databallpy_event rows \<and> table_ok u evs rows chk"
proof -
  from assms obtain st where st: "process_events u ([], False) evs = Inr st"
    and t: "table = map map_databallpy_event (fst st)"
    by (auto simp: get_event_data_def event_stream_def bind_result_Inr)
  obtain rows chk where [simp]: "st = (rows, chk)" by (cases st)
  from st have "table_ok u evs rows chk" by (simp add: process_events_table_ok)
  with st t show ?thesis by auto
qed
section \<open>Sample inputs\<close>

text \<open>A stand-in for \<open>databallpy.utils\<close>: the sentinel \<open>-999\<close> and conversions that
  read numbers and digit strings and fall back on the sentinel (or on 0 for a \<open>float\<close>);
  and a record shaped like the vendor's feed. The closed instances below are evaluated on
  them.\<close>

definition digit_value :: "char \<Rightarrow> int option" where
  "digit_value c = map_of (zip ''0123456789'' [0, 1, 2, 3, 4, 5, 6, 7, 8, 9]) c"

fun decimal :: "string \<Rightarrow> int \<Rightarrow> int option" where
  "decimal [] acc = Some acc"
| "decimal (c # cs) acc =
     (case digit_value c of None \<Rightarrow> None | Some d \<Rightarrow> decimal cs (10 * acc + d))"

definition example_utils :: utils where
  "example_utils =
     \<lparr>MISSING_INT = -999,
      to_int = (\<lambda>v. case v of
                  PInt i \<Rightarrow> i
                | PFloat r \<Rightarrow> \<lfloor>r\<rfloor>
                | PStr s \<Rightarrow> (if s = [] then -999
                            else case decimal s 0 of None \<Rightarrow> -999 | Some n \<Rightarrow> n)
                | _ \<Rightarrow> -999),
      to_float = (\<lambda>v. case v of PInt i \<Rightarrow> of_int i | PFloat r \<Rightarrow> r | _ \<Rightarrow> 0)\<rparr>"

definition example_fields ::
  "int \<Rightarrow> string \<Rightarrow> string \<Rightarrow> pyval \<Rightarrow> (string \<times> pyval) list" where
  "example_fields i name team subtypes =
     [(''index'', PInt i),
      (''type'', PDict [(''id'', PInt 1), (''name'', PStr name)]),
      (''subtypes'', subtypes),
      (''start'', PDict [(''frame'', PInt 100), (''time'', PInt 75),
                         (''x'', PFloat 0.5), (''y'', PFloat 0.25)]),
      (''end'', PDict [(''frame'', PInt 110), (''time'', PInt 76),
                       (''x'', PFloat 0.75), (''y'', PFloat 0.5)]),
      (''period'', PInt 1),
      (''from'', PDict [(''id'', PStr ''P7''), (''name'', PStr ''Player 7'')]),
      (''to'', PNone),
      (''team'', PDict [(''id'', PStr team), (''name'', PStr team)])]"

definition example_event :: "int \<Rightarrow> string \<Rightarrow> string \<Rightarrow> pyval \<Rightarrow> pyval" where
  "example_event i name team subtypes = PDict (example_fields i name team subtypes)"

lemmas example_defs =
  get_event_data_def event_stream_def example_event_def example_fields_def example_utils_def
  digit_value_def process_event_def
  getitem2_def resolve_last_outcome_def lost_possession_def same_team_as_last_def
  set_last_outcome_def to_player_def shot_result_def out_of_possession_events_def
  in_possession_events_def lower_char_def map_databallpy_event_def metrica_databallpy_map_def
  event_name_of_def event_team_of_def
section \<open>Outcome of a pass or a carry\<close>

text \<open>
  Claim C1. Whenever \<open>_get_event_data\<close> returns a table and record \<open>i\<close> is a pass or a
  carry with a record after it, the outcome of row \<open>i\<close> is 0 exactly when the next record
  is an out-of-possession event (\<open>fault received\<close>, \<open>ball out\<close>, \<open>ball lost\<close>) of the
  same team or an in-possession event (\<open>pass\<close>, \<open>carry\<close>, \<open>recovery\<close>, \<open>shot\<close>) of
  another team, and 1 in every other case.
\<close>

theorem pass_carry_outcome_from_next_record:
  assumes "get_event_data u events_dict = Inr table"
    and "event_stream events_dict = Inr evs"
    and "Suc i < length evs"
    and "event_name_of (evs ! i) = Inr n" and "n = ''pass'' \<or> n = ''carry''"
  shows "\<exists>n' t t'. event_name_of (evs ! Suc i) = Inr n' \<and>
           event_team_of (evs ! i) = Inr t \<and> event_team_of (evs ! Suc i) = Inr t' \<and>
           outcome (table ! i) =
             (if n' \<in> set out_of_possession_events \<and> py_eq t t' \<or>
                 n' \<in> set in_possession_events \<and> \<not> py_eq t t'
              then 0 else 1)"
proof -
  from get_event_data_Inr[OF assms(1,2)] obtain rows chk
    where t: "table = map map_databallpy_event rows" and ok: "table_ok u evs rows chk"
    by blast
  have len: "length rows = length evs" using ok by (simp add: table_ok_def)
  have r0: "row_ok u evs rows i" and r1: "row_ok u evs rows (Suc i)"
    using ok assms(3) by (simp_all add: table_ok_def)
  have nm: "metrica_event (rows ! i) = n" using r0 assms(4) by (simp add: row_ok_def)
  have "outcome (rows ! i) =
          (if loses_ball (metrica_event (rows ! Suc i)) (team_id (rows ! i)) (team_id (rows ! Suc i))
           then 0 else 1)"
    using r0 nm assms(3,5) by (auto simp: row_ok_def)
  moreover have "outcome (table ! i) = outcome (rows ! i)"
    using t len assms(3) by (simp add: map_databallpy_event_def)
  ultimately show ?thesis
    using r0 r1 by (auto simp: row_ok_def loses_ball_def)
qed

text \<open>A pass of team A followed by a \<open>ball lost\<close> of team A gets outcome 0.\<close>

definition pass_then_ball_lost :: pyval where
  "pass_then_ball_lost =
     PDict [(''data'', PList [example_event 1 ''PASS'' ''A'' PNone,
                              example_event 2 ''BALL LOST'' ''A'' PNone])]"

theorem pass_carry_outcome_from_next_record_witness:
  "\<exists>table. get_event_data example_utils pass_then_ball_lost = Inr table \<and>
           event_name_of (example_event 1 ''PASS'' ''A'' PNone) = Inr ''pass'' \<and>
           event_name_of (example_event 2 ''BALL LOST'' ''A'' PNone) = Inr ''ball lost'' \<and>
           outcome (table ! 0) = 0"
proof -
  let ?evs = "[example_event 1 ''PASS'' ''A'' PNone, example_event 2 ''BALL LOST'' ''A'' PNone]"
  have "\<exists>table. get_event_data example_utils pass_then_ball_lost = Inr table"
    by (simp add: pass_then_ball_lost_def example_defs)
  then obtain table where g: "get_event_data example_utils pass_then_ball_lost = Inr table" ..
  have s: "event_stream pass_then_ball_lost = Inr ?evs"
    by (simp add: pass_then_ball_lost_def event_stream_def)
  have l: "Suc 0 < length ?evs" by simp
  have n0: "event_name_of (?evs ! 0) = Inr ''pass''" by (simp add: example_defs)
  have n1: "event_name_of (?evs ! Suc 0) = Inr ''ball lost''" by (simp add: example_defs)
  have t0: "event_team_of (?evs ! 0) = Inr (PStr ''A'')" by (simp add: example_defs)
  have t1: "event_team_of (?evs ! Suc 0) = Inr (PStr ''A'')" by (simp add: example_defs)
  from pass_carry_outcome_from_next_record[OF g s l n0] n1 t0 t1
  have "outcome (table ! 0) = 0" by (simp add: out_of_possession_events_def)
  with g n0 n1 show ?thesis by auto
qed

section \<open>A pass or a carry that ends the stream\<close>

text \<open>
  Claim C9. When the last record of the stream is a pass or a carry, no later record
  resolves it: its row keeps the sentinel \<open>MISSING_INT\<close> as outcome in the returned table.
\<close>

theorem last_pass_carry_keeps_sentinel:
  assumes "get_event_data u events_dict = Inr table"
    and "event_stream events_dict = Inr evs"
    and "evs \<noteq> []"
    and "event_name_of (last evs) = Inr n" and "n = ''pass'' \<or> n = ''carry''"
  shows "table \<noteq> [] \<and> outcome (last table) = MISSING_INT u"
proof -
  from get_event_data_Inr[OF assms(1,2)] obtain rows chk
    where t: "table = map map_databallpy_event rows" and ok: "table_ok u evs rows chk"
    by blast
  have len: "length rows = length evs" using ok by (simp add: table_ok_def)
  then have ne: "rows \<noteq> []" using assms(3) by auto
  obtain i where i: "length evs = Suc i" using assms(3) by (cases evs) auto
  have r: "row_ok u evs rows i" using ok i by (simp add: table_ok_def)
  have le: "last evs = evs ! i" using assms(3) i by (simp add: last_conv_nth)
  have lr: "last rows = rows ! i" using ne len i by (simp add: last_conv_nth)
  have "metrica_event (rows ! i) = n"
    using r assms(4) by (simp add: row_ok_def le)
  then have "outcome (rows ! i) = MISSING_INT u"
    using r assms(5) i by (auto simp: row_ok_def)
  then have "outcome (last rows) = MISSING_INT u" by (simp add: lr)
  then show ?thesis using t ne by (simp add: last_map map_databallpy_event_def)
qed

definition ball_lost_then_carry :: pyval where
  "ball_lost_then_carry =
     PDict [(''data'', PList [example_event 1 ''BALL LOST'' ''A'' PNone,
                              example_event 2 ''CARRY'' ''B'' PNone])]"

theorem last_pass_carry_keeps_sentinel_witness:
  "\<exists>table. get_event_data example_utils ball_lost_then_carry = Inr table \<and>
           event_name_of (example_event 2 ''CARRY'' ''B'' PNone) = Inr ''carry'' \<and>
           outcome (last table) = -999"
proof -
  let ?evs = "[example_event 1 ''BALL LOST'' ''A'' PNone, example_event 2 ''CARRY'' ''B'' PNone]"
  have "\<exists>table. get_event_data example_utils ball_lost_then_carry = Inr table"
    by (simp add: ball_lost_then_carry_def example_defs)
  then obtain table where g: "get_event_data example_utils ball_lost_then_carry = Inr table" ..
  have s: "event_stream ball_lost_then_carry = Inr ?evs"
    by (simp add: ball_lost_then_carry_def event_stream_def)
  have ne: "?evs \<noteq> []" by simp
  have n: "event_name_of (last ?evs) = Inr ''carry''" by (simp add: example_defs)
  from last_pass_carry_keeps_sentinel[OF g s ne n]
  have "outcome (last table) = -999" by (simp add: example_utils_def)
  with g n show ?thesis by auto
qed

section \<open>Outcome of a shot\<close>

text \<open>The claim's reading of "some attached sub-type is named \<open>GOAL\<close>", for a list of
  sub-type objects and for a single object.\<close>

definition named_goal :: "pyval \<Rightarrow> bool" where
  "named_goal sub \<longleftrightarrow> getitem sub ''name'' = Inr (PStr ''GOAL'')"

definition has_goal_subtype :: "pyval \<Rightarrow> bool" where
  "has_goal_subtype subtypes =
     (case subtypes of PList subs \<Rightarrow> (\<exists>sub \<in> set subs. named_goal sub)
      | _ \<Rightarrow> named_goal subtypes)"

lemma py_eq_PStr: "py_eq n (PStr s) \<longleftrightarrow> n = PStr s"
  by (cases n) auto

lemma goal_among_Inr:
  "goal_among subs = Inr v \<Longrightarrow> v = (if \<exists>sub \<in> set subs. named_goal sub then 1 else 0)"
proof (induction subs)
  case Nil
  then show ?case by simp
next
  case (Cons sub subs)
  from Cons.prems obtain n where n: "getitem sub ''name'' = Inr n"
    and rest: "(if py_eq n (PStr ''GOAL'') then Inr 1 else goal_among subs) = Inr v"
    by (auto simp: bind_result_Inr)
  show ?case
  proof (cases "n = PStr ''GOAL''")
    case True
    then show ?thesis using n rest by (simp add: named_goal_def)
  next
    case False
    then have "goal_among subs = Inr v" using rest by (simp add: py_eq_PStr)
    from Cons.IH[OF this] show ?thesis using n False by (simp add: named_goal_def)
  qed
qed

lemma shot_result_Inr:
  assumes "shot_result event = Inr v"
  shows "\<exists>subtypes. getitem event ''subtypes'' = Inr subtypes \<and>
           v = (if has_goal_subtype subtypes then 1 else 0)"
proof -
  from assms obtain st where st: "getitem event ''subtypes'' = Inr st"
    and r: "(case st of PList subs \<Rightarrow> goal_among subs
             | _ \<Rightarrow> bind_result (getitem st ''name'')
                      (\<lambda>n. Inr (if py_eq n (PStr ''GOAL'') then 1 else 0))) = Inr v"
    by (auto simp: shot_result_def bind_result_Inr)
  have "v = (if has_goal_subtype st then 1 else 0)"
  proof (cases st)
    case (PList subs)
    then show ?thesis using r goal_among_Inr[of subs v] by (simp add: has_goal_subtype_def)
  qed (use r in \<open>auto simp: has_goal_subtype_def named_goal_def bind_result_Inr py_eq_PStr\<close>)
  with st show ?thesis by blast
qed

text \<open>The sub-types whose names the loop can read: every object of the list, or the
  single object, supports \<open>["name"]\<close>. \<open>None\<close> does not.\<close>

definition has_name :: "pyval \<Rightarrow> bool" where
  "has_name sub = (case getitem sub ''name'' of Inl _ \<Rightarrow> False | Inr _ \<Rightarrow> True)"

definition names_readable :: "pyval \<Rightarrow> bool" where
  "names_readable subtypes =
     (case subtypes of PList subs \<Rightarrow> (\<forall>sub \<in> set subs. has_name sub)
      | _ \<Rightarrow> has_name subtypes)"

lemma goal_among_readable:
  "\<forall>sub \<in> set subs. has_name sub \<Longrightarrow>
   goal_among subs = Inr (if \<exists>sub \<in> set subs. named_goal sub then 1 else 0)"
proof (induction subs)
  case Nil
  show ?case by simp
next
  case (Cons sub subs)
  from Cons.prems have "has_name sub" by simp
  then obtain n where n: "getitem sub ''name'' = Inr n"
    by (cases "getitem sub ''name''") (simp_all add: has_name_def)
  from Cons.prems have "\<forall>s \<in> set subs. has_name s" by simp
  from Cons.IH[OF this] show ?case
    using n by (simp add: named_goal_def py_eq_PStr)
qed

lemma shot_result_readable:
  assumes "getitem event ''subtypes'' = Inr subtypes" and "names_readable subtypes"
  shows "shot_result event = Inr (if has_goal_subtype subtypes then 1 else 0)"
proof (cases subtypes)
  case (PList subs)
  then show ?thesis
    using assms goal_among_readable[of subs]
    by (simp add: shot_result_def names_readable_def has_goal_subtype_def)
next
  case PNone
  then show ?thesis using assms by (simp add: names_readable_def has_name_def)
next
  case (PDict kvs)
  from assms(2) obtain n where "getitem subtypes ''name'' = Inr n"
    unfolding PDict names_readable_def has_name_def
    by (cases "getitem (PDict kvs) ''name''") simp_all
  then show ?thesis
    using assms(1) PDict
    by (simp add: shot_result_def has_goal_subtype_def named_goal_def py_eq_PStr)
qed (use assms in \<open>simp_all add: names_readable_def has_name_def\<close>)

lemma shot_result_null:
  "getitem event ''subtypes'' = Inr PNone \<Longrightarrow> shot_result event = Inl (TypeError ''subscript'')"
  by (simp add: shot_result_def)

text \<open>
  Claim C2. For every record labelled \<open>shot\<close>: when \<open>_get_event_data\<close> returns a table, the
  record's \<open>subtypes\<close> is not \<open>None\<close> and the row's outcome is 1 if some attached sub-type
  (in a list, or the single object) has the name \<open>GOAL\<close>, and 0 otherwise; when the names
  of the sub-types can be read, lines 216--226 compute exactly that outcome and do not
  raise; and when \<open>subtypes\<close> is \<open>None\<close>, \<open>None["name"]\<close> raises \<open>TypeError\<close> and no table is
  returned, so such a shot gets no outcome at all.
\<close>

theorem shot_outcome_iff_goal_subtype:
  assumes "event_stream events_dict = Inr evs"
    and "i < length evs"
    and "event_name_of (evs ! i) = Inr ''shot''"
  shows "(\<forall>table. get_event_data u events_dict = Inr table \<longrightarrow>
            (\<exists>subtypes. getitem (evs ! i) ''subtypes'' = Inr subtypes \<and> subtypes \<noteq> PNone \<and>
               outcome (table ! i) = (if has_goal_subtype subtypes then 1 else 0))) \<and>
         (\<forall>subtypes. getitem (evs ! i) ''subtypes'' = Inr subtypes \<and> names_readable subtypes \<longrightarrow>
            shot_result (evs ! i) = Inr (if has_goal_subtype subtypes then 1 else 0)) \<and>
         (getitem (evs ! i) ''subtypes'' = Inr PNone \<longrightarrow>
            shot_result (evs ! i) = Inl (TypeError ''subscript'') \<and>
            (\<exists>e. get_event_data u events_dict = Inl e))"
proof -
  have tab: "\<exists>v. shot_result (evs ! i) = Inr v \<and> outcome (table ! i) = v"
    if g: "get_event_data u events_dict = Inr table" for table
  proof -
    from get_event_data_Inr[OF g assms(1)] obtain rows chk
      where t: "table = map map_databallpy_event rows" and ok: "table_ok u evs rows chk"
      by blast
    have len: "length rows = length evs" using ok by (simp add: table_ok_def)
    have r: "row_ok u evs rows i" using ok assms(2) by (simp add: table_ok_def)
    have "metrica_event (rows ! i) = ''shot''" using r assms(3) by (simp add: row_ok_def)
    then have "shot_result (evs ! i) = Inr (outcome (rows ! i))" using r by (simp add: row_ok_def)
    then show ?thesis using t len assms(2) by (simp add: map_databallpy_event_def)
  qed
  have a: "\<forall>table. get_event_data u events_dict = Inr table \<longrightarrow>
            (\<exists>subtypes. getitem (evs ! i) ''subtypes'' = Inr subtypes \<and> subtypes \<noteq> PNone \<and>
               outcome (table ! i) = (if has_goal_subtype subtypes then 1 else 0))"
  proof (intro allI impI)
    fix table assume "get_event_data u events_dict = Inr table"
    from tab[OF this] obtain v where v: "shot_result (evs ! i) = Inr v"
      and o: "outcome (table ! i) = v" by blast
    from shot_result_Inr[OF v] obtain st where st: "getitem (evs ! i) ''subtypes'' = Inr st"
      and e: "v = (if has_goal_subtype st then 1 else 0)" by blast
    have "st \<noteq> PNone" using v st shot_result_null[of "evs ! i"] by auto
    with st e o show "\<exists>subtypes. getitem (evs ! i) ''subtypes'' = Inr subtypes \<and>
        subtypes \<noteq> PNone \<and> outcome (table ! i) = (if has_goal_subtype subtypes then 1 else 0)"
      by blast
  qed
  have b: "\<forall>subtypes. getitem (evs ! i) ''subtypes'' = Inr subtypes \<and> names_readable subtypes \<longrightarrow>
            shot_result (evs ! i) = Inr (if has_goal_subtype subtypes then 1 else 0)"
    using shot_result_readable by blast
  have c: "getitem (evs ! i) ''subtypes'' = Inr PNone \<longrightarrow>
            shot_result (evs ! i) = Inl (TypeError ''subscript'') \<and>
            (\<exists>e. get_event_data u events_dict = Inl e)"
  proof
    assume n: "getitem (evs ! i) ''subtypes'' = Inr PNone"
    then have s: "shot_result (evs ! i) = Inl (TypeError ''subscript'')"
      by (rule shot_result_null)
    have "\<exists>e. get_event_data u events_dict = Inl e"
    proof (cases "get_event_data u events_dict")
      case (Inr table)
      from tab[OF this] s show ?thesis by simp
    qed simp
    with s show "shot_result (evs ! i) = Inl (TypeError ''subscript'') \<and>
            (\<exists>e. get_event_data u events_dict = Inl e)" by simp
  qed
  from a b c show ?thesis by (intro conjI)
qed

definition goal_subtypes :: pyval where
  "goal_subtypes = PList [PDict [(''id'', PInt 33), (''name'', PStr ''ON TARGET'')],
                          PDict [(''id'', PInt 30), (''name'', PStr ''GOAL'')]]"

definition pass_shot_shot :: pyval where
  "pass_shot_shot =
     PDict [(''data'', PList [example_event 1 ''PASS'' ''A'' PNone,
                              example_event 2 ''SHOT'' ''A'' goal_subtypes,
                              example_event 3 ''SHOT'' ''B''
                                (PDict [(''id'', PInt 34), (''name'', PStr ''OFF TARGET'')])])]"

definition shot_without_subtypes :: pyval where
  "shot_without_subtypes = PDict [(''data'', PList [example_event 1 ''SHOT'' ''A'' PNone])]"

text \<open>A stream holding one shot whose \<open>subtypes\<close> is \<open>None\<close>: no sub-type is named
  \<open>GOAL\<close>, yet the shot does not get the outcome 0, because the call raises.\<close>

theorem shot_with_null_subtypes_raises:
  "event_name_of (example_event 1 ''SHOT'' ''A'' PNone) = Inr ''shot'' \<and>
   getitem (example_event 1 ''SHOT'' ''A'' PNone) ''subtypes'' = Inr PNone \<and>
   \<not> has_goal_subtype PNone \<and>
   get_event_data example_utils shot_without_subtypes = Inl (TypeError ''subscript'')"
  by (simp add: shot_without_subtypes_def example_defs has_goal_subtype_def named_goal_def)

theorem shot_outcome_iff_goal_subtype_witness:
  "(\<exists>table. get_event_data example_utils pass_shot_shot = Inr table \<and>
           has_goal_subtype goal_subtypes \<and> outcome (table ! 1) = 1) \<and>
   names_readable goal_subtypes \<and>
   shot_result (example_event 2 ''SHOT'' ''A'' goal_subtypes) = Inr 1 \<and>
   shot_result (example_event 1 ''SHOT'' ''A'' PNone) = Inl (TypeError ''subscript'') \<and>
   (\<exists>e. get_event_data example_utils shot_without_subtypes = Inl e)"
proof -
  let ?evs = "[example_event 1 ''PASS'' ''A'' PNone,
               example_event 2 ''SHOT'' ''A'' goal_subtypes,
               example_event 3 ''SHOT'' ''B''
                 (PDict [(''id'', PInt 34), (''name'', PStr ''OFF TARGET'')])]"
  have "\<exists>table. get_event_data example_utils pass_shot_shot = Inr table"
    by (simp add: pass_shot_shot_def goal_subtypes_def example_defs)
  then obtain table where g: "get_event_data example_utils pass_shot_shot = Inr table" ..
  have s: "event_stream pass_shot_shot = Inr ?evs"
    by (simp add: pass_shot_shot_def event_stream_def)
  have l: "1 < length ?evs" by simp
  have n: "event_name_of (?evs ! 1) = Inr ''shot''" by (simp add: example_defs)
  have st: "getitem (?evs ! 1) ''subtypes'' = Inr goal_subtypes" by (simp add: example_defs)
  have h: "has_goal_subtype goal_subtypes"
    by (simp add: has_goal_subtype_def goal_subtypes_def named_goal_def)
  have nr: "names_readable goal_subtypes"
    by (simp add: names_readable_def goal_subtypes_def has_name_def)
  note t = shot_outcome_iff_goal_subtype[OF s l n, of example_utils]
  from t g st have o: "outcome (table ! 1) = 1" using h by auto
  from t st nr h have r: "shot_result (example_event 2 ''SHOT'' ''A'' goal_subtypes) = Inr 1"
    by simp
  let ?null = "[example_event 1 ''SHOT'' ''A'' PNone]"
  have s0: "event_stream shot_without_subtypes = Inr ?null"
    by (simp add: shot_without_subtypes_def event_stream_def)
  have l0: "0 < length ?null" by simp
  have n0: "event_name_of (?null ! 0) = Inr ''shot''" by (simp add: example_defs)
  have st0: "getitem (?null ! 0) ''subtypes'' = Inr PNone" by (simp add: example_defs)
  note t0 = shot_outcome_iff_goal_subtype[OF s0 l0 n0, of example_utils]
  from t0 st0 have z: "shot_result (example_event 1 ''SHOT'' ''A'' PNone) = Inl (TypeError ''subscript'') \<and>
     (\<exists>e. get_event_data example_utils shot_without_subtypes = Inl e)" by simp
  from g h o nr r z show ?thesis by blast
qed

section \<open>The canonical event name\<close>

lemma event_name_of_Inr:
  assumes "event_name_of event = Inr n"
  shows "\<exists>label. getitem2 event ''type'' ''name'' = Inr (PStr label) \<and> n = map lower_char label"
proof -
  from assms obtain raw where raw: "getitem2 event ''type'' ''name'' = Inr raw"
    and l: "lower raw = Inr n"
    by (auto simp: event_name_of_def bind_result_Inr)
  from l show ?thesis using raw by (cases raw) auto
qed

text \<open>
  Claim C6. In the returned table, the canonical name of row \<open>i\<close> is the entry of the
  fixed table \<open>pass \<mapsto> pass\<close>, \<open>carry \<mapsto> dribble\<close>, \<open>shot \<mapsto> shot\<close> for the record's
  lower-cased vendor label, and \<open>None\<close> for every label outside these three.
\<close>

theorem databallpy_event_from_lookup_table:
  assumes "get_event_data u events_dict = Inr table"
    and "event_stream events_dict = Inr evs"
    and "i < length evs"
  shows "\<exists>label. getitem2 (evs ! i) ''type'' ''name'' = Inr (PStr label) \<and>
           metrica_event (table ! i) = map lower_char label \<and>
           databallpy_event (table ! i) = map_of metrica_databallpy_map (metrica_event (table ! i)) \<and>
           databallpy_event (table ! i) =
             (if metrica_event (table ! i) = ''pass'' then Some ''pass''
              else if metrica_event (table ! i) = ''carry'' then Some ''dribble''
              else if metrica_event (table ! i) = ''shot'' then Some ''shot''
              else None)"
proof -
  from get_event_data_Inr[OF assms(1,2)] obtain rows chk
    where t: "table = map map_databallpy_event rows" and ok: "table_ok u evs rows chk"
    by blast
  have len: "length rows = length evs" using ok by (simp add: table_ok_def)
  have r: "row_ok u evs rows i" using ok assms(3) by (simp add: table_ok_def)
  then have "event_name_of (evs ! i) = Inr (metrica_event (rows ! i))"
    by (simp add: row_ok_def)
  from event_name_of_Inr[OF this] obtain label
    where l: "getitem2 (evs ! i) ''type'' ''name'' = Inr (PStr label)"
      and m: "metrica_event (rows ! i) = map lower_char label"
    by blast
  have ti: "table ! i = map_databallpy_event (rows ! i)" using t len assms(3) by simp
  have "metrica_event (table ! i) = map lower_char label"
    using m by (simp add: ti map_databallpy_event_def)
  moreover have "databallpy_event (table ! i) =
                   map_of metrica_databallpy_map (metrica_event (table ! i))"
    by (simp add: ti map_databallpy_event_def)
  ultimately show ?thesis
    using l by (auto simp: metrica_databallpy_map_def)
qed

definition carry_then_ball_out :: pyval where
  "carry_then_ball_out =
     PDict [(''data'', PList [example_event 1 ''CARRY'' ''A'' PNone,
                              example_event 2 ''BALL OUT'' ''A'' PNone])]"

theorem databallpy_event_from_lookup_table_witness:
  "\<exists>table. get_event_data example_utils carry_then_ball_out = Inr table \<and>
           databallpy_event (table ! 0) = Some ''dribble'' \<and>
           databallpy_event (table ! 1) = None"
proof -
  let ?evs = "[example_event 1 ''CARRY'' ''A'' PNone, example_event 2 ''BALL OUT'' ''A'' PNone]"
  have "\<exists>table. get_event_data example_utils carry_then_ball_out = Inr table"
    by (simp add: carry_then_ball_out_def example_defs)
  then obtain table where g: "get_event_data example_utils carry_then_ball_out = Inr table" ..
  have s: "event_stream carry_then_ball_out = Inr ?evs"
    by (simp add: carry_then_ball_out_def event_stream_def)
  have l0: "0 < length ?evs" and l1: "1 < length ?evs" by simp_all
  have n0: "getitem2 (?evs ! 0) ''type'' ''name'' = Inr (PStr ''CARRY'')"
    and n1: "getitem2 (?evs ! 1) ''type'' ''name'' = Inr (PStr ''BALL OUT'')"
    by (simp_all add: example_defs)
  from databallpy_event_from_lookup_table[OF g s l0] n0
  have a: "databallpy_event (table ! 0) = Some ''dribble''"
    by (auto simp: lower_char_def)
  from databallpy_event_from_lookup_table[OF g s l1] n1
  have b: "databallpy_event (table ! 1) = None"
    by (auto simp: lower_char_def)
  from g a b show ?thesis by auto
qed

section \<open>Sentinels and missing keys\<close>

text \<open>The keys every record is read at, whatever its label, and a dict with one key
  taken out.\<close>

definition required_keys :: "string list" where
  "required_keys =
     [''index'', ''type'', ''period'', ''start'', ''from'', ''team'', ''to'', ''end'']"

definition dict_without :: "string \<Rightarrow> (string \<times> pyval) list \<Rightarrow> (string \<times> pyval) list" where
  "dict_without k kvs = filter (\<lambda>kv. fst kv \<noteq> k) kvs"

lemma map_of_dict_without:
  "map_of (dict_without k kvs) k' = (if k' = k then None else map_of kvs k')"
  by (induction kvs) (auto simp: dict_without_def)

lemma getitem_without_same: "getitem (PDict (dict_without k kvs)) k = Inl (KeyError k)"
  by (simp add: map_of_dict_without)

lemma getitem_without_other:
  "k' \<noteq> k \<Longrightarrow> getitem (PDict (dict_without k kvs)) k' = getitem (PDict kvs) k'"
  by (simp add: map_of_dict_without)

lemma getitem2_without_same:
  "getitem2 (PDict (dict_without k kvs)) k k2 = Inl (KeyError k)"
  by (simp add: getitem2_def map_of_dict_without)

lemma getitem2_without_other:
  "k' \<noteq> k \<Longrightarrow> getitem2 (PDict (dict_without k kvs)) k' k2 = getitem2 (PDict kvs) k' k2"
  by (simp add: getitem2_def map_of_dict_without)

lemma shot_result_without:
  "k \<noteq> ''subtypes'' \<Longrightarrow> shot_result (PDict (dict_without k kvs)) = shot_result (PDict kvs)"
  by (simp add: shot_result_def map_of_dict_without)

lemma to_player_without_other:
  "k \<noteq> ''to'' \<Longrightarrow> to_player u (PDict (dict_without k kvs)) = to_player u (PDict kvs)"
  by (simp add: to_player_def map_of_dict_without)

lemma to_player_without_same:
  "to_player u (PDict (dict_without ''to'' kvs)) = Inl (KeyError ''to'')"
  by (simp add: to_player_def map_of_dict_without)

lemma same_team_without_other:
  "k \<noteq> ''team'' \<Longrightarrow>
   same_team_as_last rows (PDict (dict_without k kvs)) = same_team_as_last rows (PDict kvs)"
  by (simp add: same_team_as_last_def getitem2_without_other)

lemma resolve_without_other:
  "k \<noteq> ''team'' \<Longrightarrow>
   resolve_last_outcome rows n (PDict (dict_without k kvs)) =
   resolve_last_outcome rows n (PDict kvs)"
  by (simp add: resolve_last_outcome_def lost_possession_def same_team_without_other
      cong: if_cong)

lemma resolve_without_team:
  assumes "resolve_last_outcome rows n (PDict kvs) = Inr rows1"
  shows "resolve_last_outcome rows n (PDict (dict_without ''team'' kvs)) = Inl (KeyError ''team'') \<or>
         resolve_last_outcome rows n (PDict (dict_without ''team'' kvs)) = Inr rows1"
proof -
  have ne: "rows \<noteq> []"
    using assms
    by (auto simp: resolve_last_outcome_def set_last_outcome_def bind_result_Inr split: if_splits)
  show ?thesis
  proof (cases "n \<in> set out_of_possession_events \<or> n \<in> set in_possession_events")
    case True
    then have "resolve_last_outcome rows n (PDict (dict_without ''team'' kvs)) =
                 Inl (KeyError ''team'')"
      using ne
      by (auto simp: resolve_last_outcome_def lost_possession_def same_team_as_last_def
          getitem2_without_same)
    then show ?thesis by simp
  next
    case False
    then have "resolve_last_outcome rows n (PDict (dict_without ''team'' kvs)) =
                 resolve_last_outcome rows n (PDict kvs)"
      by (simp add: resolve_last_outcome_def lost_possession_def)
    then show ?thesis using assms by simp
  qed
qed

lemmas without_simps =
  getitem_without_same getitem_without_other getitem2_without_same getitem2_without_other
  shot_result_without to_player_without_other to_player_without_same resolve_without_other

lemma process_event_reads:
  assumes "process_event u (rows, chk) event = Inr st'"
  obtains index tid raw_name event_name period time mins secs from_id from_tl from_name
    rows1 oc team sx sy top ex ey frame
  where "getitem event ''index'' = Inr index"
    and "getitem2 event ''type'' ''id'' = Inr tid"
    and "getitem2 event ''type'' ''name'' = Inr raw_name"
    and "lower raw_name = Inr event_name"
    and "getitem event ''period'' = Inr period"
    and "getitem2 event ''start'' ''time'' = Inr time"
    and "py_floordiv time 60 = Inr mins"
    and "py_mod time 60 = Inr secs"
    and "getitem2 event ''from'' ''id'' = Inr from_id"
    and "py_tail from_id = Inr from_tl"
    and "getitem2 event ''from'' ''name'' = Inr from_name"
    and "(if chk then resolve_last_outcome rows event_name event else Inr rows) = Inr rows1"
    and "(if event_name = ''shot'' then shot_result event else Inr (MISSING_INT u)) = Inr oc"
    and "getitem2 event ''team'' ''id'' = Inr team"
    and "getitem2 event ''start'' ''x'' = Inr sx"
    and "getitem2 event ''start'' ''y'' = Inr sy"
    and "to_player u event = Inr top"
    and "getitem2 event ''end'' ''x'' = Inr ex"
    and "getitem2 event ''end'' ''y'' = Inr ey"
    and "getitem2 event ''start'' ''frame'' = Inr frame"
  using assms unfolding process_event_def bind_result_Inr fst_conv snd_conv
  by (elim exE conjE) (rule that; assumption)

lemma process_event_without_key:
  assumes "process_event u (rows, chk) (PDict kvs) = Inr st'" and "k \<in> set required_keys"
  shows "process_event u (rows, chk) (PDict (dict_without k kvs)) = Inl (KeyError k)"
proof -
  from assms(1) obtain index tid raw_name event_name period time mins secs from_id from_tl
    from_name rows1 oc team sx sy top ex ey frame
    where f: "getitem (PDict kvs) ''index'' = Inr index"
      "getitem2 (PDict kvs) ''type'' ''id'' = Inr tid"
      "getitem2 (PDict kvs) ''type'' ''name'' = Inr raw_name"
      "lower raw_name = Inr event_name"
      "getitem (PDict kvs) ''period'' = Inr period"
      "getitem2 (PDict kvs) ''start'' ''time'' = Inr time"
      "py_floordiv time 60 = Inr mins"
      "py_mod time 60 = Inr secs"
      "getitem2 (PDict kvs) ''from'' ''id'' = Inr from_id"
      "py_tail from_id = Inr from_tl"
      "getitem2 (PDict kvs) ''from'' ''name'' = Inr from_name"
      and r: "(if chk then resolve_last_outcome rows event_name (PDict kvs) else Inr rows)
              = Inr rows1"
      and g: "(if event_name = ''shot'' then shot_result (PDict kvs) else Inr (MISSING_INT u))
              = Inr oc"
        "getitem2 (PDict kvs) ''team'' ''id'' = Inr team"
        "getitem2 (PDict kvs) ''start'' ''x'' = Inr sx"
        "getitem2 (PDict kvs) ''start'' ''y'' = Inr sy"
        "to_player u (PDict kvs) = Inr top"
        "getitem2 (PDict kvs) ''end'' ''x'' = Inr ex"
        "getitem2 (PDict kvs) ''end'' ''y'' = Inr ey"
        "getitem2 (PDict kvs) ''start'' ''frame'' = Inr frame"
    by (rule process_event_reads)
  note s = process_event_def without_simps f r g
  from assms(2) consider "k = ''index''" | "k = ''type''" | "k = ''period''" | "k = ''start''"
    | "k = ''from''" | "k = ''to''" | "k = ''end''" | "k = ''team''"
    unfolding required_keys_def by fastforce
  then show ?thesis
  proof cases
    case 1
    then show ?thesis by (simp add: s del: getitem.simps)
  next
    case 2
    then show ?thesis by (simp add: s del: getitem.simps)
  next
    case 3
    then show ?thesis by (simp add: s del: getitem.simps)
  next
    case 4
    then show ?thesis by (simp add: s del: getitem.simps)
  next
    case 5
    then show ?thesis by (simp add: s del: getitem.simps)
  next
    case 6
    then show ?thesis by (simp add: s del: getitem.simps cong: if_cong)
  next
    case 7
    then show ?thesis by (simp add: s del: getitem.simps cong: if_cong)
  next
    case 8
    show ?thesis
    proof (cases chk)
      case False
      then show ?thesis using 8 by (simp add: s del: getitem.simps cong: if_cong)
    next
      case True
      with r have "resolve_last_outcome rows event_name (PDict kvs) = Inr rows1" by simp
      from resolve_without_team[OF this] show ?thesis
        using True 8 by (auto simp add: s simp del: getitem.simps cong: if_cong)
    qed
  qed
qed

text \<open>The same for the keys read inside a nested object: the record with key \<open>k2\<close> taken
  out of the object under \<open>k1\<close> (the first binding of a key is the one a lookup finds).\<close>

definition required_paths :: "(string \<times> string) list" where
  "required_paths =
     [(''type'', ''id''), (''type'', ''name''), (''start'', ''time''), (''from'', ''id''),
      (''from'', ''name''), (''team'', ''id''), (''start'', ''x''), (''start'', ''y''),
      (''end'', ''x''), (''end'', ''y''), (''start'', ''frame'')]"

definition without_nested ::
  "string \<Rightarrow> string \<Rightarrow> (string \<times> pyval) list \<Rightarrow> (string \<times> pyval) list" where
  "without_nested k1 k2 kvs =
     (case map_of kvs k1 of
        Some (PDict inner) \<Rightarrow> (k1, PDict (dict_without k2 inner)) # kvs
      | _ \<Rightarrow> kvs)"

lemma getitem2_Inr_dict:
  assumes "getitem2 (PDict kvs) k1 k2 = Inr v"
  shows "\<exists>inner. map_of kvs k1 = Some (PDict inner) \<and> map_of inner k2 = Some v"
proof -
  from assms obtain x where x: "getitem (PDict kvs) k1 = Inr x" and y: "getitem x k2 = Inr v"
    by (auto simp: getitem2_def bind_result_Inr)
  from y obtain inner where "x = PDict inner" by (cases x) auto
  with x y show ?thesis by (auto split: option.splits)
qed

lemma getitem_without_nested:
  "k' \<noteq> k1 \<Longrightarrow> getitem (PDict (without_nested k1 k2 kvs)) k' = getitem (PDict kvs) k'"
  by (auto simp: without_nested_def split: option.splits pyval.splits)

lemma getitem2_without_nested:
  assumes "getitem2 (PDict kvs) k1 k2 = Inr v"
  shows "getitem2 (PDict (without_nested k1 k2 kvs)) k' kk =
           (if k' = k1 \<and> kk = k2 then Inl (KeyError k2) else getitem2 (PDict kvs) k' kk)"
proof -
  from getitem2_Inr_dict[OF assms] obtain inner where "map_of kvs k1 = Some (PDict inner)"
    by blast
  then show ?thesis
    by (simp add: without_nested_def getitem2_def map_of_dict_without)
qed

lemma shot_result_without_nested:
  "k1 \<noteq> ''subtypes'' \<Longrightarrow>
   shot_result (PDict (without_nested k1 k2 kvs)) = shot_result (PDict kvs)"
  by (simp add: shot_result_def getitem_without_nested del: getitem.simps)

lemma to_player_without_nested:
  "k1 \<noteq> ''to'' \<Longrightarrow>
   to_player u (PDict (without_nested k1 k2 kvs)) = to_player u (PDict kvs)"
  by (simp add: to_player_def getitem_without_nested del: getitem.simps)

lemma resolve_without_nested:
  assumes "getitem2 (PDict kvs) k1 k2 = Inr v" and "k1 \<noteq> ''team''"
  shows "resolve_last_outcome rows n (PDict (without_nested k1 k2 kvs)) =
         resolve_last_outcome rows n (PDict kvs)"
  using assms(2)
  by (simp add: resolve_last_outcome_def lost_possession_def same_team_as_last_def
      getitem2_without_nested[OF assms(1)] cong: if_cong)

lemma resolve_without_team_id:
  assumes "resolve_last_outcome rows n (PDict kvs) = Inr rows1"
    and "getitem2 (PDict kvs) ''team'' ''id'' = Inr v"
  shows "resolve_last_outcome rows n (PDict (without_nested ''team'' ''id'' kvs)) =
           Inl (KeyError ''id'') \<or>
         resolve_last_outcome rows n (PDict (without_nested ''team'' ''id'' kvs)) = Inr rows1"
proof -
  have ne: "rows \<noteq> []"
    using assms(1)
    by (auto simp: resolve_last_outcome_def set_last_outcome_def bind_result_Inr split: if_splits)
  show ?thesis
  proof (cases "n \<in> set out_of_possession_events \<or> n \<in> set in_possession_events")
    case True
    then have "resolve_last_outcome rows n (PDict (without_nested ''team'' ''id'' kvs)) =
                 Inl (KeyError ''id'')"
      using ne
      by (auto simp: resolve_last_outcome_def lost_possession_def same_team_as_last_def
          getitem2_without_nested[OF assms(2)])
    then show ?thesis by simp
  next
    case False
    then have "resolve_last_outcome rows n (PDict (without_nested ''team'' ''id'' kvs)) =
                 resolve_last_outcome rows n (PDict kvs)"
      by (simp add: resolve_last_outcome_def lost_possession_def)
    then show ?thesis using assms by simp
  qed
qed

lemma process_event_without_nested_key:
  assumes "process_event u (rows, chk) (PDict kvs) = Inr st'" and "(k1, k2) \<in> set required_paths"
  shows "process_event u (rows, chk) (PDict (without_nested k1 k2 kvs)) = Inl (KeyError k2)"
proof -
  from assms(1) obtain index tid raw_name event_name period time mins secs from_id from_tl
    from_name rows1 oc team sx sy top ex ey frame
    where f: "getitem (PDict kvs) ''index'' = Inr index"
      "lower raw_name = Inr event_name"
      "getitem (PDict kvs) ''period'' = Inr period"
      "py_floordiv time 60 = Inr mins"
      "py_mod time 60 = Inr secs"
      "py_tail from_id = Inr from_tl"
      "to_player u (PDict kvs) = Inr top"
      and p: "getitem2 (PDict kvs) ''type'' ''id'' = Inr tid"
      "getitem2 (PDict kvs) ''type'' ''name'' = Inr raw_name"
      "getitem2 (PDict kvs) ''start'' ''time'' = Inr time"
      "getitem2 (PDict kvs) ''from'' ''id'' = Inr from_id"
      "getitem2 (PDict kvs) ''from'' ''name'' = Inr from_name"
      "getitem2 (PDict kvs) ''team'' ''id'' = Inr team"
      "getitem2 (PDict kvs) ''start'' ''x'' = Inr sx"
      "getitem2 (PDict kvs) ''start'' ''y'' = Inr sy"
      "getitem2 (PDict kvs) ''end'' ''x'' = Inr ex"
      "getitem2 (PDict kvs) ''end'' ''y'' = Inr ey"
      "getitem2 (PDict kvs) ''start'' ''frame'' = Inr frame"
      and r: "(if chk then resolve_last_outcome rows event_name (PDict kvs) else Inr rows)
              = Inr rows1"
      and g: "(if event_name = ''shot'' then shot_result (PDict kvs) else Inr (MISSING_INT u))
              = Inr oc"
    by (rule process_event_reads)
  note s = process_event_def getitem_without_nested shot_result_without_nested
    to_player_without_nested f p r g
  have "(k1, k2) = (''type'', ''id'') \<or> (k1, k2) = (''type'', ''name'')
    \<or> (k1, k2) = (''start'', ''time'') \<or> (k1, k2) = (''from'', ''id'')
    \<or> (k1, k2) = (''from'', ''name'') \<or> (k1, k2) = (''start'', ''x'')
    \<or> (k1, k2) = (''start'', ''y'') \<or> (k1, k2) = (''end'', ''x'')
    \<or> (k1, k2) = (''end'', ''y'') \<or> (k1, k2) = (''start'', ''frame'')
    \<or> (k1, k2) = (''team'', ''id'')"
    using assms(2) unfolding required_paths_def list.set insert_iff empty_iff
    by (elim disjE) (simp_all only: simp_thms)
  then consider "(k1, k2) = (''type'', ''id'')" | "(k1, k2) = (''type'', ''name'')"
    | "(k1, k2) = (''start'', ''time'')" | "(k1, k2) = (''from'', ''id'')"
    | "(k1, k2) = (''from'', ''name'')" | "(k1, k2) = (''start'', ''x'')"
    | "(k1, k2) = (''start'', ''y'')" | "(k1, k2) = (''end'', ''x'')"
    | "(k1, k2) = (''end'', ''y'')" | "(k1, k2) = (''start'', ''frame'')"
    | "(k1, k2) = (''team'', ''id'')"
    by (elim disjE) (erule that, assumption?)+
  then show ?thesis
  proof cases
    case 1
    then show ?thesis
      by (simp add: s getitem2_without_nested[OF p(1)] resolve_without_nested[OF p(1)]
          del: getitem.simps cong: if_cong)
  next
    case 2
    then show ?thesis
      by (simp add: s getitem2_without_nested[OF p(2)] resolve_without_nested[OF p(2)]
          del: getitem.simps cong: if_cong)
  next
    case 3
    then show ?thesis
      by (simp add: s getitem2_without_nested[OF p(3)] resolve_without_nested[OF p(3)]
          del: getitem.simps cong: if_cong)
  next
    case 4
    then show ?thesis
      by (simp add: s getitem2_without_nested[OF p(4)] resolve_without_nested[OF p(4)]
          del: getitem.simps cong: if_cong)
  next
    case 5
    then show ?thesis
      by (simp add: s getitem2_without_nested[OF p(5)] resolve_without_nested[OF p(5)]
          del: getitem.simps cong: if_cong)
  next
    case 6
    then show ?thesis
      by (simp add: s getitem2_without_nested[OF p(7)] resolve_without_nested[OF p(7)]
          del: getitem.simps cong: if_cong)
  next
    case 7
    then show ?thesis
      by (simp add: s getitem2_without_nested[OF p(8)] resolve_without_nested[OF p(8)]
          del: getitem.simps cong: if_cong)
  next
    case 8
    then show ?thesis
      by (simp add: s getitem2_without_nested[OF p(9)] resolve_without_nested[OF p(9)]
          del: getitem.simps cong: if_cong)
  next
    case 9
    then show ?thesis
      by (simp add: s getitem2_without_nested[OF p(10)] resolve_without_nested[OF p(10)]
          del: getitem.simps cong: if_cong)
  next
    case 10
    then show ?thesis
      by (simp add: s getitem2_without_nested[OF p(11)] resolve_without_nested[OF p(11)]
          del: getitem.simps cong: if_cong)
  next
    case 11
    have g': "event_name = ''shot'' \<longrightarrow> shot_result (PDict kvs) = Inr oc"
      using g by (simp split: if_splits)
    show ?thesis
    proof (cases chk)
      case False
      then show ?thesis using 11
        by (simp add: s getitem2_without_nested[OF p(6)] del: getitem.simps cong: if_cong)
    next
      case True
      with r have "resolve_last_outcome rows event_name (PDict kvs) = Inr rows1" by simp
      from resolve_without_team_id[OF this p(6)] show ?thesis
      proof
        assume "resolve_last_outcome rows event_name
                  (PDict (without_nested ''team'' ''id'' kvs)) = Inl (KeyError ''id'')"
        then show ?thesis using True 11
          by (simp add: s getitem2_without_nested[OF p(6)] del: getitem.simps)
      next
        assume "resolve_last_outcome rows event_name
                  (PDict (without_nested ''team'' ''id'' kvs)) = Inr rows1"
        then show ?thesis using True 11 g'
          by (simp add: s getitem2_without_nested[OF p(6)] del: getitem.simps)
      qed
    qed
  qed
qed

lemma process_event_without_subtypes:
  assumes "process_event u (rows, chk) (PDict kvs) = Inr st'"
    and "event_name_of (PDict kvs) = Inr ''shot''"
  shows "process_event u (rows, chk) (PDict (dict_without ''subtypes'' kvs)) =
           Inl (KeyError ''subtypes'')"
proof -
  from assms(1) obtain index tid raw_name event_name period time mins secs from_id from_tl
    from_name rows1 oc team sx sy recv ex ey frame
    where f: "getitem (PDict kvs) ''index'' = Inr index"
      "getitem2 (PDict kvs) ''type'' ''id'' = Inr tid"
      "getitem2 (PDict kvs) ''type'' ''name'' = Inr raw_name"
      "lower raw_name = Inr event_name"
      "getitem (PDict kvs) ''period'' = Inr period"
      "getitem2 (PDict kvs) ''start'' ''time'' = Inr time"
      "py_floordiv time 60 = Inr mins"
      "py_mod time 60 = Inr secs"
      "getitem2 (PDict kvs) ''from'' ''id'' = Inr from_id"
      "py_tail from_id = Inr from_tl"
      "getitem2 (PDict kvs) ''from'' ''name'' = Inr from_name"
      and r: "(if chk then resolve_last_outcome rows event_name (PDict kvs) else Inr rows)
              = Inr rows1"
    by (rule process_event_reads)
  have n: "event_name = ''shot''"
    using assms(2) f(3,4) by (simp add: event_name_of_def)
  have sh: "shot_result (PDict (dict_without ''subtypes'' kvs)) = Inl (KeyError ''subtypes'')"
    by (simp add: shot_result_def map_of_dict_without)
  have "resolve_last_outcome rows ''shot'' (PDict (dict_without ''subtypes'' kvs)) =
        resolve_last_outcome rows ''shot'' (PDict kvs)"
    by (simp add: resolve_without_other)
  then show ?thesis
    using r n
    by (cases chk) (simp_all add: process_event_def without_simps f sh del: getitem.simps)
qed


text \<open>The row the loop body appends, with the values it was built from, in the order
  they are read.\<close>

lemma process_event_row:
  assumes "process_event u (rows, chk) event = Inr (rows', chk')"
  obtains index tid raw_name event_name period time mins secs from_id from_tl from_name
    rows1 oc team sx sy recv ex ey frame
  where "getitem event ''index'' = Inr index"
    and "getitem2 event ''type'' ''id'' = Inr tid"
    and "getitem2 event ''type'' ''name'' = Inr raw_name"
    and "lower raw_name = Inr event_name"
    and "getitem event ''period'' = Inr period"
    and "getitem2 event ''start'' ''time'' = Inr time"
    and "py_floordiv time 60 = Inr mins"
    and "py_mod time 60 = Inr secs"
    and "getitem2 event ''from'' ''id'' = Inr from_id"
    and "py_tail from_id = Inr from_tl"
    and "getitem2 event ''from'' ''name'' = Inr from_name"
    and "(if chk then resolve_last_outcome rows event_name event else Inr rows) = Inr rows1"
    and "(if event_name = ''shot'' then shot_result event else Inr (MISSING_INT u)) = Inr oc"
    and "getitem2 event ''team'' ''id'' = Inr team"
    and "getitem2 event ''start'' ''x'' = Inr sx"
    and "getitem2 event ''start'' ''y'' = Inr sy"
    and "to_player u event = Inr recv"
    and "getitem2 event ''end'' ''x'' = Inr ex"
    and "getitem2 event ''end'' ''y'' = Inr ey"
    and "getitem2 event ''start'' ''frame'' = Inr frame"
    and "rows1 @
           [\<lparr>event_id = index, type_id = tid, databallpy_event = None,
             period_id = period, minutes = to_int u mins, seconds = to_float u secs,
             player_id = to_int u from_tl, player_name = from_name, team_id = team,
             outcome = oc, start_x = to_float u sx, start_y = to_float u sy,
             to_player_id = fst recv, to_player_name = snd recv,
             end_x = to_float u ex, end_y = to_float u ey, td_frame = frame,
             metrica_event = event_name\<rparr>] = rows'"
    and "(event_name \<in> set [''pass'', ''carry'']) = chk'"
  using assms unfolding process_event_def bind_result_Inr fst_conv snd_conv sum.inject prod.inject
  by (elim exE conjE) (rule that; assumption)

text \<open>The sentinel reaches the receiver only through a null \<open>to\<close> field.\<close>

lemma to_player_sentinel:
  assumes "to_player u event = Inr recv"
  shows "to_player (u\<lparr>MISSING_INT := m\<rparr>) event =
           Inr (if getitem event ''to'' = Inr PNone then m else fst recv, snd recv)"
  using assms by (auto simp: to_player_def bind_result_Inr split: if_splits)



definition shot_with_receiver :: "(string \<times> pyval) list" where
  "shot_with_receiver =
     (''to'', PDict [(''id'', PStr ''P9''), (''name'', PStr ''Player 9'')])
       # example_fields 4 ''SHOT'' ''A'' goal_subtypes"



section \<open>Loading: the checks on the two locations\<close>

text \<open>
  What a caller may pass as a location: a \<open>str\<close>, or any other object, of which the
  model keeps the two texts the function prints, \<open>type(obj)\<close> and \<open>str(obj)\<close>.
\<close>

datatype pyobj = Str string | Obj string string

fun py_str :: "pyobj \<Rightarrow> string" where
  "py_str (Str s) = s"
| "py_str (Obj type_text text) = text"

text \<open>\<open>sub in s\<close> on strings.\<close>

fun is_prefix :: "string \<Rightarrow> string \<Rightarrow> bool" where
  "is_prefix [] s = True"
| "is_prefix (a # as) [] = False"
| "is_prefix (a # as) (b # bs) = (a = b \<and> is_prefix as bs)"

fun py_in_str :: "string \<Rightarrow> string \<Rightarrow> bool" where
  "py_in_str sub [] = (sub = [])"
| "py_in_str sub (c # cs) = (is_prefix sub (c # cs) \<or> py_in_str sub cs)"

text \<open>
  Lines 52--73 of \<open>load_metrica_event_data\<close>. \<open>exists\<close> stands for \<open>os.path.exists\<close>,
  which may itself raise on an object that is no path.
\<close>

definition check_locations ::
  "(pyobj \<Rightarrow> bool result) \<Rightarrow> pyobj \<Rightarrow> pyobj \<Rightarrow> unit result" where
  "check_locations exists event_data_loc metadata_loc =
     (case event_data_loc of
        Str s \<Rightarrow>
          if \<not> py_in_str ''{'' s then
            bind_result (exists event_data_loc) (\<lambda>found.
              if \<not> found then Inl (FileNotFoundError (''Could not find '' @ s))
              else bind_result (exists metadata_loc) (\<lambda>found_md.
                if \<not> found_md
                then Inl (FileNotFoundError (''Could not find '' @ py_str metadata_loc))
                else Inr ()))
          else Inr ()
      | Obj type_text text \<Rightarrow>
          Inl (TypeError
                (''tracking_data_loc must be either a str or a StringIO object, not a ''
                 @ type_text)))"

section \<open>Loading: coordinates and timestamps\<close>

text \<open>
  Modelled from the spec: the metadata object. Its class and the metadata parser are not
  among the sources; the spec lists what it provides: pitch dimensions, team ids, the
  frame rate and, per period, the start frame and start time. A time is an instant in
  nanoseconds since the epoch, read as UTC (which is what \<open>pd.to_datetime(_, utc=True)\<close>
  makes of a naive timestamp); \<open>period_no\<close> is the column \<open>period_id\<close> of the periods
  table.
\<close>

record period_frames =
  period_no :: int
  start_frame :: int
  start_datetime_ed :: int

record metadata =
  pitch_dimensions :: "real \<times> real"
  periods_frames :: "period_frames list"
  frame_rate :: real
  home_team_id :: pyval
  away_team_id :: pyval

text \<open>Lines 84--94. The columns of the table, in order, and the two selections
  \<open>[x for x in event_data.columns if "_x" in x]\<close> and likewise for \<open>"_y"\<close>.\<close>

definition event_columns :: "string list" where
  "event_columns =
     [''event_id'', ''type_id'', ''databallpy_event'', ''period_id'', ''minutes'', ''seconds'',
      ''player_id'', ''player_name'', ''team_id'', ''outcome'', ''start_x'', ''start_y'',
      ''to_player_id'', ''to_player_name'', ''end_x'', ''end_y'', ''td_frame'',
      ''metrica_event'']"

definition x_columns :: "string list" where
  "x_columns = filter (py_in_str ''_x'') event_columns"

definition y_columns :: "string list" where
  "y_columns = filter (py_in_str ''_y'') event_columns"

text \<open>Rounding to the nearest integer, a tie going to the even one: the rule of
  \<open>float64\<close> arithmetic, and of \<open>datetime.timedelta\<close> below.\<close>

definition round_half_even :: "real \<Rightarrow> int" where
  "round_half_even r =
     (let f = \<lfloor>r\<rfloor>; d = r - of_int f
      in if d < 1 / 2 then f else if 1 / 2 < d then f + 1 else if even f then f else f + 1)"

text \<open>
  The coordinate columns are \<open>float64\<close>, and \<open>*\<close>, \<open>/\<close> and \<open>-\<close> on them give the exact result
  rounded to the nearest \<open>float64\<close>, a tie going to the even significand. A \<open>float64\<close> has
  53 significant bits, and the exponent of its leading bit lies between \<open>-1022\<close> and \<open>1023\<close>;
  below \<open>2 ^ -1022\<close> the spacing stays that of the smallest normal numbers. \<open>halvings\<close> and
  \<open>doublings\<close> find the exponent of the leading bit of a number at least 1, or below 1,
  within these bounds; \<open>ulp x\<close> is the spacing of the \<open>float64\<close> numbers around \<open>x\<close>. A result
  beyond the largest \<open>float64\<close>, where the hardware gives an infinity, is outside the model.
\<close>

fun halvings :: "nat \<Rightarrow> real \<Rightarrow> nat" where
  "halvings 0 x = 0"
| "halvings (Suc n) x = (if x < 2 then 0 else Suc (halvings n (x / 2)))"

fun doublings :: "nat \<Rightarrow> real \<Rightarrow> nat" where
  "doublings 0 x = 0"
| "doublings (Suc n) x = (if 1 \<le> x then 0 else Suc (doublings n (x * 2)))"

definition ulp :: "real \<Rightarrow> real" where
  "ulp x =
     (if 1 \<le> \<bar>x\<bar> then 2 ^ halvings 1023 \<bar>x\<bar> else 1 / 2 ^ doublings 1022 \<bar>x\<bar>) / 2 ^ 52"

definition round64 :: "real \<Rightarrow> real" where
  "round64 x = of_int (round_half_even (x / ulp x)) * ulp x"

text \<open>Lines 86--93: \<open>event_data[col] * dimension - dimension / 2.0\<close>, three \<open>float64\<close>
  operations.\<close>

definition rescale :: "real \<Rightarrow> real \<Rightarrow> real" where
  "rescale dimension v = round64 (round64 (v * dimension) - round64 (dimension / 2))"

text \<open>Arithmetic on a column, by name. Only the \<open>float\<close> columns are covered: no other
  column is ever selected (\<open>x_columns_eq\<close>, \<open>y_columns_eq\<close> below).\<close>

definition update_column :: "string \<Rightarrow> (real \<Rightarrow> real) \<Rightarrow> event_row \<Rightarrow> event_row" where
  "update_column col f r =
     (if col = ''start_x'' then r\<lparr>start_x := f (start_x r)\<rparr>
      else if col = ''start_y'' then r\<lparr>start_y := f (start_y r)\<rparr>
      else if col = ''end_x'' then r\<lparr>end_x := f (end_x r)\<rparr>
      else if col = ''end_y'' then r\<lparr>end_y := f (end_y r)\<rparr>
      else if col = ''seconds'' then r\<lparr>seconds := f (seconds r)\<rparr>
      else r)"

definition rescale_columns :: "string list \<Rightarrow> real \<Rightarrow> event_row list \<Rightarrow> event_row list" where
  "rescale_columns cols dimension event_data =
     fold (\<lambda>col rows. map (update_column col (rescale dimension)) rows) cols event_data"

definition rescale_event_locations :: "metadata \<Rightarrow> event_row list \<Rightarrow> event_row list" where
  "rescale_event_locations md event_data =
     rescale_columns y_columns (snd (pitch_dimensions md))
       (rescale_columns x_columns (fst (pitch_dimensions md)) event_data)"

text \<open>
  Lines 96--112. \<open>.iloc[0]\<close> of the rows with \<open>period_id == 1\<close> raises \<open>IndexError\<close> when
  there is none. \<open>datetime.timedelta\<close> holds whole microseconds: a fractional argument is
  rounded to the nearest one, ties to even. A frame number that is no number makes the
  subtraction raise, a zero frame rate the division (or, with numpy scalars, the
  \<open>timedelta\<close> built from the resulting infinity).
\<close>

record timed_row = event_row +
  datetime :: int

definition first_period :: "metadata \<Rightarrow> period_frames result" where
  "first_period md =
     (case filter (\<lambda>p. period_no p = 1) (periods_frames md) of
        [] \<Rightarrow> Inl IndexError
      | p # _ \<Rightarrow> Inr p)"

definition timedelta_milliseconds :: "real \<Rightarrow> int" where
  "timedelta_milliseconds ms = round_half_even (ms * 1000)"

definition rel_timedelta :: "int \<Rightarrow> real \<Rightarrow> pyval \<Rightarrow> int result" where
  "rel_timedelta first_frame rate x =
     (case num_of x of
        None \<Rightarrow> Inl (TypeError ''-'')
      | Some frame \<Rightarrow>
          if rate = 0 then Inl ZeroDivisionError
          else Inr (timedelta_milliseconds ((frame - of_int first_frame) / rate * 1000)))"

fun map_result :: "('a \<Rightarrow> 'b result) \<Rightarrow> 'a list \<Rightarrow> 'b list result" where
  "map_result f [] = Inr []"
| "map_result f (x # xs) =
     bind_result (f x) (\<lambda>y. bind_result (map_result f xs) (\<lambda>ys. Inr (y # ys)))"

definition add_datetime :: "metadata \<Rightarrow> event_row list \<Rightarrow> timed_row list result" where
  "add_datetime md event_data =
     bind_result (first_period md) (\<lambda>p.
     bind_result
       (map_result (\<lambda>r. rel_timedelta (start_frame p) (frame_rate md) (td_frame r)) event_data)
       (\<lambda>rel.
     Inr (map (\<lambda>(r, d). event_row.extend r (timed_row.fields (start_datetime_ed p + 1000 * d)))
            (zip event_data rel))))"

text \<open>
  The whole function. Its collaborators are parameters: \<open>os.path.exists\<close>, the metadata
  parser (lines 75--79), the reading and parsing of the event file (lines 153--162), and
  the last steps (lines 114--121: the playing-direction normalisation, which is not among
  the sources, and the assembly of the typed events with \<open>DataFrame.apply\<close>).
\<close>

record 'r collaborators =
  path_exists :: "pyobj \<Rightarrow> bool result"
  get_metadata :: "pyobj \<Rightarrow> metadata result"
  read_events_dict :: "pyobj \<Rightarrow> pyval result"
  finish :: "timed_row list \<Rightarrow> metadata \<Rightarrow> 'r result"

definition load_pipeline :: "'r collaborators \<Rightarrow> utils \<Rightarrow> pyobj \<Rightarrow> pyobj \<Rightarrow> 'r result" where
  "load_pipeline c u event_data_loc metadata_loc =
     bind_result (get_metadata c metadata_loc) (\<lambda>md.
     bind_result (read_events_dict c event_data_loc) (\<lambda>events_dict.
     bind_result (get_event_data u events_dict) (\<lambda>event_data.
     bind_result (add_datetime md (rescale_event_locations md event_data)) (\<lambda>timed.
     finish c timed md))))"

definition load_metrica_event_data ::
  "'r collaborators \<Rightarrow> utils \<Rightarrow> pyobj \<Rightarrow> pyobj \<Rightarrow> 'r result" where
  "load_metrica_event_data c u event_data_loc metadata_loc =
     bind_result (check_locations (path_exists c) event_data_loc metadata_loc)
       (\<lambda>_. load_pipeline c u event_data_loc metadata_loc)"

lemma x_columns_eq: "x_columns = [''start_x'', ''end_x'']"
  by (simp add: x_columns_def event_columns_def)

lemma y_columns_eq: "y_columns = [''start_y'', ''end_y'']"
  by (simp add: y_columns_def event_columns_def)

section \<open>Rounding\<close>

lemma round_half_even_close: "\<bar>of_int (round_half_even r) - r\<bar> \<le> 1 / 2"
proof -
  have "of_int \<lfloor>r\<rfloor> \<le> r" and "r < of_int \<lfloor>r\<rfloor> + 1" by linarith+
  then show ?thesis
    by (auto simp: round_half_even_def Let_def)
qed

lemma round_half_even_of_int: "round_half_even (of_int n) = n"
  by (simp add: round_half_even_def)


definition example_metadata :: metadata where
  "example_metadata =
     \<lparr>pitch_dimensions = (105, 68),
      periods_frames = [\<lparr>period_no = 1, start_frame = 100, start_datetime_ed = 0\<rparr>,
                        \<lparr>period_no = 2, start_frame = 70000, start_datetime_ed = 3600000000000\<rparr>],
      frame_rate = 25,
      home_team_id = PStr ''A'',
      away_team_id = PStr ''B''\<rparr>"

definition example_collaborators :: "(timed_row list) collaborators" where
  "example_collaborators =
     \<lparr>path_exists = (\<lambda>p. Inr (p = Str ''events.json'' \<or> p = Str ''metadata.xml'')),
      get_metadata = (\<lambda>p. Inr example_metadata),
      read_events_dict = (\<lambda>p. Inr pass_then_ball_lost),
      finish = (\<lambda>rows md. Inr rows)\<rparr>"

section \<open>Bad locations\<close>

text \<open>
  Claim C8, as the code has it. An \<open>event_data_loc\<close> that is no \<open>str\<close> raises \<open>TypeError\<close>,
  a file object included. A \<open>str\<close> without \<open>{\<close> is a path: when it does not exist, or it
  does and the metadata path does not, \<open>FileNotFoundError\<close> is raised with the message
  \<open>Could not find <path>\<close>. A \<open>str\<close> with \<open>{\<close> is taken as the event data itself and
  passes the checks with no look at the file system. Past the checks the call is the
  pipeline; in every case it returns a result or an exception.
\<close>

theorem load_checks_locations_first:
  "load_metrica_event_data c u (Obj type_text text) metadata_loc =
     Inl (TypeError (''tracking_data_loc must be either a str or a StringIO object, not a ''
                     @ type_text)) \<and>
   (\<not> py_in_str ''{'' s \<and> path_exists c (Str s) = Inr False \<longrightarrow>
      load_metrica_event_data c u (Str s) metadata_loc =
        Inl (FileNotFoundError (''Could not find '' @ s))) \<and>
   (\<not> py_in_str ''{'' s \<and> path_exists c (Str s) = Inr True \<and>
    path_exists c metadata_loc = Inr False \<longrightarrow>
      load_metrica_event_data c u (Str s) metadata_loc =
        Inl (FileNotFoundError (''Could not find '' @ py_str metadata_loc))) \<and>
   (\<not> py_in_str ''{'' s \<and> path_exists c (Str s) = Inr True \<and>
    path_exists c metadata_loc = Inr True \<longrightarrow>
      load_metrica_event_data c u (Str s) metadata_loc =
        load_pipeline c u (Str s) metadata_loc) \<and>
   (py_in_str ''{'' s \<longrightarrow>
      check_locations (path_exists c) (Str s) metadata_loc = Inr () \<and>
      load_metrica_event_data c u (Str s) metadata_loc =
        load_pipeline c u (Str s) metadata_loc) \<and>
   ((\<exists>e. load_metrica_event_data c u event_data_loc metadata_loc = Inl e) \<or>
    (\<exists>r. load_metrica_event_data c u event_data_loc metadata_loc = Inr r))"
proof -
  have "(\<exists>e. load_metrica_event_data c u event_data_loc metadata_loc = Inl e) \<or>
        (\<exists>r. load_metrica_event_data c u event_data_loc metadata_loc = Inr r)"
    by (cases "load_metrica_event_data c u event_data_loc metadata_loc") simp_all
  then show ?thesis
    by (simp add: load_metrica_event_data_def check_locations_def)
qed

theorem load_checks_locations_first_witness:
  "\<not> py_in_str ''{'' ''missing.json'' \<and>
   path_exists example_collaborators (Str ''missing.json'') = Inr False \<and>
   load_metrica_event_data example_collaborators example_utils
     (Str ''missing.json'') (Str ''metadata.xml'') =
     Inl (FileNotFoundError ''Could not find missing.json'') \<and>
   load_metrica_event_data example_collaborators example_utils
     (Str ''events.json'') (Str ''no_metadata.xml'') =
     Inl (FileNotFoundError ''Could not find no_metadata.xml'') \<and>
   py_in_str ''{'' ''{}'' \<and>
   check_locations (path_exists example_collaborators) (Str ''{}'')
     (Str ''no_metadata.xml'') = Inr () \<and>
   load_metrica_event_data example_collaborators example_utils
     (Str ''events.json'') (Str ''metadata.xml'') =
     load_pipeline example_collaborators example_utils
       (Str ''events.json'') (Str ''metadata.xml'')"
proof -
  have a: "\<not> py_in_str ''{'' ''missing.json''" by simp
  have b: "path_exists example_collaborators (Str ''missing.json'') = Inr False"
    by (simp add: example_collaborators_def)
  have a2: "\<not> py_in_str ''{'' ''events.json''" by simp
  have b2: "path_exists example_collaborators (Str ''events.json'') = Inr True"
    "path_exists example_collaborators (Str ''no_metadata.xml'') = Inr False"
    by (simp_all add: example_collaborators_def)
  have a3: "py_in_str ''{'' ''{}''" by simp
  from load_checks_locations_first[of example_collaborators example_utils _ _
      "Str ''metadata.xml''" "''missing.json''"] a b
  have r1: "load_metrica_event_data example_collaborators example_utils
     (Str ''missing.json'') (Str ''metadata.xml'') =
     Inl (FileNotFoundError ''Could not find missing.json'')" by simp
  from load_checks_locations_first[of example_collaborators example_utils _ _
      "Str ''no_metadata.xml''" "''events.json''"] a2 b2
  have r2: "load_metrica_event_data example_collaborators example_utils
     (Str ''events.json'') (Str ''no_metadata.xml'') =
     Inl (FileNotFoundError ''Could not find no_metadata.xml'')" by simp
  from load_checks_locations_first[of example_collaborators example_utils _ _
      "Str ''no_metadata.xml''" "''{}''"] a3
  have r3: "check_locations (path_exists example_collaborators) (Str ''{}'')
     (Str ''no_metadata.xml'') = Inr ()" by simp
  have b4: "path_exists example_collaborators (Str ''metadata.xml'') = Inr True"
    by (simp add: example_collaborators_def)
  from load_checks_locations_first[of example_collaborators example_utils _ _
      "Str ''metadata.xml''" "''events.json''"] a2 b2(1) b4
  have r4: "load_metrica_event_data example_collaborators example_utils
     (Str ''events.json'') (Str ''metadata.xml'') =
     load_pipeline example_collaborators example_utils
       (Str ''events.json'') (Str ''metadata.xml'')" by simp
  from a b r1 r2 a3 r3 r4 show ?thesis by simp
qed

text \<open>The claim's last clause on inputs fails: a file object is no \<open>str\<close> and is refused.\<close>

theorem file_object_is_refused:
  "load_metrica_event_data example_collaborators example_utils
     (Obj ''<class _io.StringIO>'' ''<_io.StringIO object>'') (Str ''metadata.xml'') =
   Inl (TypeError
     ''tracking_data_loc must be either a str or a StringIO object, not a <class _io.StringIO>'')"
  by (simp add: load_metrica_event_data_def check_locations_def)

section \<open>Rescaled coordinates\<close>

lemma length_rescale_columns [simp]:
  "length (rescale_columns cols d rows) = length rows"
  unfolding rescale_columns_def by (induction cols arbitrary: rows) simp_all

lemma rescale_x_columns_nth:
  assumes "i < length rows"
  shows "rescale_columns x_columns d rows ! i =
           (rows ! i)\<lparr>start_x := rescale d (start_x (rows ! i)),
                       end_x := rescale d (end_x (rows ! i))\<rparr>"
  using assms by (simp add: x_columns_eq rescale_columns_def update_column_def)

lemma rescale_y_columns_nth:
  assumes "i < length rows"
  shows "rescale_columns y_columns d rows ! i =
           (rows ! i)\<lparr>start_y := rescale d (start_y (rows ! i)),
                       end_y := rescale d (end_y (rows ! i))\<rparr>"
  using assms by (simp add: y_columns_eq rescale_columns_def update_column_def)

lemma rescale_event_locations_nth:
  assumes "i < length rows"
  shows "rescale_event_locations md rows ! i =
           (rows ! i)\<lparr>start_x := rescale (fst (pitch_dimensions md)) (start_x (rows ! i)),
                       end_x := rescale (fst (pitch_dimensions md)) (end_x (rows ! i)),
                       start_y := rescale (snd (pitch_dimensions md)) (start_y (rows ! i)),
                       end_y := rescale (snd (pitch_dimensions md)) (end_y (rows ! i))\<rparr>"
  using assms
  by (simp add: rescale_event_locations_def rescale_y_columns_nth rescale_x_columns_nth)

text \<open>The exponent search unfolds on a numeral bound, which lets a closed instance be
  computed.\<close>

lemma halvings_numeral:
  "halvings (numeral k) x = (if x < 2 then 0 else Suc (halvings (pred_numeral k) (x / 2)))"
  by (simp add: numeral_eq_Suc)

lemma doublings_numeral:
  "doublings (numeral k) x = (if 1 \<le> x then 0 else Suc (doublings (pred_numeral k) (x * 2)))"
  by (simp add: numeral_eq_Suc)

lemma round64_zero: "round64 0 = 0"
  by (simp add: round64_def round_half_even_def)

lemmas float64_eval =
  rescale_def round64_def ulp_def halvings_numeral doublings_numeral round_half_even_def

text \<open>The spacing around \<open>x\<close> is at most \<open>2 ^ -52\<close> times any bound on \<open>x\<close> that is itself
  at least the smallest normal number.\<close>

lemma halvings_le: "1 \<le> x \<Longrightarrow> 2 ^ halvings n x \<le> x"
proof (induction n arbitrary: x)
  case 0
  then show ?case by simp
next
  case (Suc n)
  show ?case
  proof (cases "x < 2")
    case True
    then show ?thesis using Suc.prems by simp
  next
    case False
    then have "1 \<le> x / 2" by simp
    from Suc.IH[OF this] have "2 ^ halvings n (x / 2) \<le> x / 2" .
    then show ?thesis using False by simp
  qed
qed

lemma doublings_le: "0 \<le> x \<Longrightarrow> 1 / 2 ^ doublings n x \<le> max x (1 / 2 ^ n)"
proof (induction n arbitrary: x)
  case 0
  then show ?case by simp
next
  case (Suc n)
  show ?case
  proof (cases "1 \<le> x")
    case True
    then show ?thesis by simp
  next
    case False
    have "0 \<le> x * 2" using Suc.prems by simp
    from Suc.IH[OF this] have "1 / 2 ^ doublings n (x * 2) \<le> max (x * 2) (1 / 2 ^ n)" .
    then have "1 / 2 ^ doublings n (x * 2) / 2 \<le> max (x * 2) (1 / 2 ^ n) / 2"
      by (rule divide_right_mono) simp
    also have "\<dots> = max x (1 / 2 ^ Suc n)" by (simp add: max_def field_simps)
    finally show ?thesis using False by simp
  qed
qed

lemma ulp_pos: "0 < ulp x"
  by (simp add: ulp_def)

lemma ulp_le:
  assumes "\<bar>x\<bar> \<le> b" and "1 / 2 ^ 1022 \<le> b"
  shows "ulp x \<le> b / 2 ^ 52"
proof -
  have "(if 1 \<le> \<bar>x\<bar> then 2 ^ halvings 1023 \<bar>x\<bar> else 1 / 2 ^ doublings 1022 \<bar>x\<bar>) \<le> b"
  proof (cases "1 \<le> \<bar>x\<bar>")
    case True
    from halvings_le[OF this] have "2 ^ halvings 1023 \<bar>x\<bar> \<le> \<bar>x\<bar>" .
    with assms(1) True show ?thesis by simp
  next
    case False
    have "1 / 2 ^ doublings 1022 \<bar>x\<bar> \<le> max \<bar>x\<bar> (1 / 2 ^ 1022)"
      by (rule doublings_le) simp
    also have "\<dots> \<le> b" using assms by (simp only: max.bounded_iff)
    finally show ?thesis using False by simp
  qed
  then show ?thesis unfolding ulp_def by (rule divide_right_mono) simp
qed

lemma round64_close: "\<bar>round64 x - x\<bar> \<le> ulp x / 2"
proof -
  define u where "u = ulp x"
  have u: "0 < u" by (simp add: u_def ulp_pos)
  define k where "k = round_half_even (x / u)"
  have "\<bar>of_int k - x / u\<bar> \<le> 1 / 2" unfolding k_def by (rule round_half_even_close)
  then have "\<bar>of_int k - x / u\<bar> * u \<le> 1 / 2 * u"
    using u by (intro mult_right_mono) simp_all
  moreover have "of_int k * u - x = (of_int k - x / u) * u"
    using u by (simp add: left_diff_distrib)
  then have "\<bar>of_int k - x / u\<bar> * u = \<bar>of_int k * u - x\<bar>"
    using u by (simp add: abs_mult)
  ultimately show ?thesis by (simp add: round64_def u_def k_def)
qed

lemma round64_within:
  assumes "\<bar>x\<bar> \<le> b" and "1 / 2 ^ 1022 \<le> b"
  shows "\<bar>round64 x - x\<bar> \<le> b / 2 ^ 53"
proof -
  have "\<bar>round64 x - x\<bar> \<le> ulp x / 2" by (rule round64_close)
  also have "\<dots> \<le> b / 2 ^ 52 / 2" using ulp_le[OF assms] by simp
  also have "\<dots> = b / 2 ^ 53" by simp
  finally show ?thesis .
qed

text \<open>The spec's formula, over the real numbers.\<close>

definition rescale_exact :: "real \<Rightarrow> real \<Rightarrow> real" where
  "rescale_exact dimension v = v * dimension - dimension / 2"

lemma rescale_close:
  assumes d: "1 / 2 ^ 1022 \<le> \<bar>d\<bar>" and v: "0 \<le> v" "v \<le> 1"
  shows "\<bar>rescale d v - rescale_exact d v\<bar> \<le> 3 * \<bar>d\<bar> / 2 ^ 53"
proof -
  define a where "a = \<bar>d\<bar>"
  define eps where "eps = a / 2 ^ 53"
  define p where "p = round64 (v * d)"
  define h where "h = round64 (d / 2)"
  have a0: "0 \<le> a" by (simp add: a_def)
  have small: "1 / 2 ^ 1022 \<le> a" using d by (simp only: a_def)
  have eps: "0 \<le> eps" "eps \<le> a / 4"
    using a0 by (simp_all add: eps_def)
  have "\<bar>v * d\<bar> = v * a" using v by (simp add: a_def abs_mult)
  also have "\<dots> \<le> 1 * a" using v a0 by (intro mult_right_mono) simp_all
  finally have vd: "\<bar>v * d\<bar> \<le> a" by simp
  have hd: "\<bar>d / 2\<bar> \<le> a" by (simp add: a_def)
  have e1: "\<bar>p - v * d\<bar> \<le> eps"
    unfolding p_def eps_def by (rule round64_within[OF vd small])
  have e2: "\<bar>h - d / 2\<bar> \<le> eps"
    unfolding h_def eps_def by (rule round64_within[OF hd small])
  have "v * d - d / 2 = d * (v - 1 / 2)" by (simp add: algebra_simps)
  then have "\<bar>v * d - d / 2\<bar> = a * \<bar>v - 1 / 2\<bar>" by (simp add: a_def abs_mult)
  also have "\<dots> \<le> a * (1 / 2)"
  proof (rule mult_left_mono)
    show "\<bar>v - 1 / 2\<bar> \<le> 1 / 2" using v by linarith
  qed (rule a0)
  finally have mid: "\<bar>v * d - d / 2\<bar> \<le> a / 2" by simp
  have ph: "\<bar>p - h\<bar> \<le> a" using e1 e2 mid eps by linarith
  have e3: "\<bar>round64 (p - h) - (p - h)\<bar> \<le> eps"
    unfolding eps_def by (rule round64_within[OF ph small])
  have "\<bar>round64 (p - h) - (v * d - d / 2)\<bar> \<le> 3 * eps" using e1 e2 e3 by linarith
  then show ?thesis
    by (simp add: rescale_def rescale_exact_def p_def h_def eps_def a_def)
qed

lemma rescale_recover:
  assumes d: "1 / 2 ^ 1022 \<le> \<bar>d\<bar>" and v: "0 \<le> v" "v \<le> 1"
  shows "\<bar>(rescale d v + d / 2) / d - v\<bar> \<le> 3 / 2 ^ 53"
proof -
  have "(0::real) < 1 / 2 ^ 1022" by simp
  from this d have pos: "0 < \<bar>d\<bar>" by (rule less_le_trans)
  then have d0: "d \<noteq> 0" by simp
  have "(rescale d v + d / 2) / d - v = (rescale d v - rescale_exact d v) / d"
    using d0 by (simp add: rescale_exact_def field_simps)
  then have "\<bar>(rescale d v + d / 2) / d - v\<bar> = \<bar>rescale d v - rescale_exact d v\<bar> / \<bar>d\<bar>"
    by (simp only: abs_divide)
  also have "\<dots> \<le> (3 * \<bar>d\<bar> / 2 ^ 53) / \<bar>d\<bar>"
    using rescale_close[OF assms] pos by (intro divide_right_mono) simp_all
  also have "\<dots> = 3 / 2 ^ 53" using pos by simp
  finally show ?thesis .
qed

text \<open>
  Claim C3. The columns whose name contains \<open>_x\<close> are \<open>start_x\<close> and \<open>end_x\<close>, those with
  \<open>_y\<close> are \<open>start_y\<close> and \<open>end_y\<close>; in every row each of them is replaced by
  \<open>v * dimension - dimension / 2\<close> as \<open>float64\<close> arithmetic computes it, each of the three
  operations rounded, with the pitch length for x and the width for y, and nothing else
  changes. The exact map \<open>rescale_exact\<close> is affine, and for a nonzero dimension it is
  injective and undone by \<open>(w + dimension / 2) / dimension\<close>. For a dimension of at least
  \<open>2 ^ -1022\<close> in size and a value of \<open>[0, 1]\<close> the stored number is within
  \<open>3 * |dimension| / 2 ^ 53\<close> of the exact one, so the original value is recovered from it
  up to \<open>3 / 2 ^ 53\<close>.
\<close>

theorem rescale_is_affine_up_to_rounding:
  "x_columns = [''start_x'', ''end_x''] \<and> y_columns = [''start_y'', ''end_y''] \<and>
   length (rescale_event_locations md rows) = length rows \<and>
   (\<forall>i < length rows.
      rescale_event_locations md rows ! i =
        (rows ! i)\<lparr>start_x := round64 (round64 (start_x (rows ! i) * fst (pitch_dimensions md))
                                 - round64 (fst (pitch_dimensions md) / 2)),
                    end_x := round64 (round64 (end_x (rows ! i) * fst (pitch_dimensions md))
                               - round64 (fst (pitch_dimensions md) / 2)),
                    start_y := round64 (round64 (start_y (rows ! i) * snd (pitch_dimensions md))
                                 - round64 (snd (pitch_dimensions md) / 2)),
                    end_y := round64 (round64 (end_y (rows ! i) * snd (pitch_dimensions md))
                               - round64 (snd (pitch_dimensions md) / 2))\<rparr>) \<and>
   (\<forall>d v. rescale_exact d v = d * v + (- d / 2)) \<and>
   (\<forall>d t v w. rescale_exact d ((1 - t) * v + t * w) =
                (1 - t) * rescale_exact d v + t * rescale_exact d w) \<and>
   (\<forall>d. d \<noteq> 0 \<longrightarrow> inj (rescale_exact d)) \<and>
   (\<forall>d v. d \<noteq> 0 \<longrightarrow> (rescale_exact d v + d / 2) / d = v) \<and>
   (\<forall>d v. 1 / 2 ^ 1022 \<le> \<bar>d\<bar> \<and> 0 \<le> v \<and> v \<le> 1 \<longrightarrow>
      \<bar>rescale d v - rescale_exact d v\<bar> \<le> 3 * \<bar>d\<bar> / 2 ^ 53 \<and>
      \<bar>(rescale d v + d / 2) / d - v\<bar> \<le> 3 / 2 ^ 53)"
proof -
  have nth: "\<forall>i < length rows.
      rescale_event_locations md rows ! i =
        (rows ! i)\<lparr>start_x := round64 (round64 (start_x (rows ! i) * fst (pitch_dimensions md))
                                 - round64 (fst (pitch_dimensions md) / 2)),
                    end_x := round64 (round64 (end_x (rows ! i) * fst (pitch_dimensions md))
                               - round64 (fst (pitch_dimensions md) / 2)),
                    start_y := round64 (round64 (start_y (rows ! i) * snd (pitch_dimensions md))
                                 - round64 (snd (pitch_dimensions md) / 2)),
                    end_y := round64 (round64 (end_y (rows ! i) * snd (pitch_dimensions md))
                               - round64 (snd (pitch_dimensions md) / 2))\<rparr>"
    by (simp add: rescale_event_locations_nth rescale_def)
  have len: "length (rescale_event_locations md rows) = length rows"
    by (simp add: rescale_event_locations_def)
  have aff: "\<forall>d v. rescale_exact d v = d * v + (- d / 2)"
    by (simp add: rescale_exact_def)
  have conv: "\<forall>d t v w. rescale_exact d ((1 - t) * v + t * w) =
                (1 - t) * rescale_exact d v + t * rescale_exact d w"
    by (simp add: rescale_exact_def algebra_simps diff_divide_distrib add_divide_distrib)
  have inv: "\<forall>d v. d \<noteq> 0 \<longrightarrow> (rescale_exact d v + d / 2) / d = v"
    by (simp add: rescale_exact_def)
  have inj: "\<forall>d. d \<noteq> 0 \<longrightarrow> inj (rescale_exact d)"
    by (auto simp: inj_def rescale_exact_def)
  have close: "\<forall>d v. 1 / 2 ^ 1022 \<le> \<bar>d\<bar> \<and> 0 \<le> v \<and> v \<le> 1 \<longrightarrow>
      \<bar>rescale d v - rescale_exact d v\<bar> \<le> 3 * \<bar>d\<bar> / 2 ^ 53 \<and>
      \<bar>(rescale d v + d / 2) / d - v\<bar> \<le> 3 / 2 ^ 53"
    using rescale_close rescale_recover by blast
  from x_columns_eq y_columns_eq len nth aff conv inj inv close show ?thesis
    by (intro conjI)
qed

definition example_row :: event_row where
  "example_row =
     \<lparr>event_id = PInt 3, type_id = PInt 1, databallpy_event = Some ''pass'',
      period_id = PInt 1, minutes = 1, seconds = 15, player_id = 7,
      player_name = PStr ''Player 7'', team_id = PStr ''A'', outcome = 1,
      start_x = 1 / 2, start_y = 1 / 4, to_player_id = -999, to_player_name = PNone,
      end_x = 1, end_y = 0, td_frame = PInt 101, metrica_event = ''pass''\<rparr>"

theorem rescale_is_affine_up_to_rounding_witness:
  "rescale_event_locations example_metadata [example_row] ! 0 =
     example_row\<lparr>start_x := 0, end_x := 105 / 2, start_y := - 17, end_y := - 34\<rparr> \<and>
   (1::real) / 2 ^ 1022 \<le> \<bar>105\<bar> \<and> rescale 105 (1 / 4) = - 105 / 4 \<and>
   \<bar>rescale 105 (1 / 4) - rescale_exact 105 (1 / 4)\<bar> \<le> 3 * \<bar>105\<bar> / 2 ^ 53 \<and>
   \<bar>(rescale 105 (1 / 4) + 105 / 2) / 105 - 1 / 4\<bar> \<le> 3 / 2 ^ 53 \<and>
   inj (rescale_exact 105)"
proof -
  note t = rescale_is_affine_up_to_rounding[of example_metadata "[example_row]"]
  from t have "\<forall>i < length [example_row].
      rescale_event_locations example_metadata [example_row] ! i =
        ([example_row] ! i)
          \<lparr>start_x := round64 (round64 (start_x ([example_row] ! i) *
                                         fst (pitch_dimensions example_metadata))
                                 - round64 (fst (pitch_dimensions example_metadata) / 2)),
            end_x := round64 (round64 (end_x ([example_row] ! i) *
                                       fst (pitch_dimensions example_metadata))
                               - round64 (fst (pitch_dimensions example_metadata) / 2)),
            start_y := round64 (round64 (start_y ([example_row] ! i) *
                                         snd (pitch_dimensions example_metadata))
                                 - round64 (snd (pitch_dimensions example_metadata) / 2)),
            end_y := round64 (round64 (end_y ([example_row] ! i) *
                                       snd (pitch_dimensions example_metadata))
                               - round64 (snd (pitch_dimensions example_metadata) / 2))\<rparr>"
    by blast
  then have a: "rescale_event_locations example_metadata [example_row] ! 0 =
     example_row\<lparr>start_x := 0, end_x := 105 / 2, start_y := - 17, end_y := - 34\<rparr>"
    by (simp add: example_metadata_def example_row_def round64_zero float64_eval)
  have b: "(1::real) / 2 ^ 1022 \<le> \<bar>105\<bar>" by simp
  have c: "rescale 105 (1 / 4) = - 105 / 4" by (simp add: float64_eval)
  from t have "\<forall>d v. 1 / 2 ^ 1022 \<le> \<bar>d\<bar> \<and> 0 \<le> v \<and> v \<le> 1 \<longrightarrow>
      \<bar>rescale d v - rescale_exact d v\<bar> \<le> 3 * \<bar>d\<bar> / 2 ^ 53 \<and>
      \<bar>(rescale d v + d / 2) / d - v\<bar> \<le> 3 / 2 ^ 53"
    by blast
  then have "1 / 2 ^ 1022 \<le> \<bar>105::real\<bar> \<and> 0 \<le> (1 / 4 :: real) \<and> (1 / 4 :: real) \<le> 1 \<longrightarrow>
      \<bar>rescale 105 (1 / 4) - rescale_exact 105 (1 / 4)\<bar> \<le> 3 * \<bar>105\<bar> / 2 ^ 53 \<and>
      \<bar>(rescale 105 (1 / 4) + 105 / 2) / 105 - 1 / 4\<bar> \<le> 3 / 2 ^ 53"
    by blast
  with b have d: "\<bar>rescale 105 (1 / 4) - rescale_exact 105 (1 / 4)\<bar> \<le> 3 * \<bar>105\<bar> / 2 ^ 53 \<and>
      \<bar>(rescale 105 (1 / 4) + 105 / 2) / 105 - 1 / 4\<bar> \<le> 3 / 2 ^ 53"
    by simp
  from t have "\<forall>d::real. d \<noteq> 0 \<longrightarrow> inj (rescale_exact d)" by blast
  then have e: "inj (rescale_exact 105)" by simp
  from a b c d e show ?thesis by (intro conjI) simp_all
qed

text \<open>
  The \<open>float64\<close> nearest to \<open>0.0005\<close> and the next \<open>float64\<close> above it, on a pitch 105 metres
  long: both are rescaled to the same number (printed as \<open>-52.4475\<close>), which is not the
  exact value of the formula for either, and from which neither is recovered.
\<close>

definition near_0005 :: real where
  "near_0005 = 1152921504606847 / 2 ^ 61"

definition next_0005 :: real where
  "next_0005 = 4611686018427389 / 2 ^ 63"

theorem rescale_merges_neighbouring_values:
  "round64 near_0005 = near_0005 \<and> round64 next_0005 = next_0005 \<and>
   0 \<le> near_0005 \<and> near_0005 < next_0005 \<and> next_0005 \<le> 1 \<and>
   rescale 105 near_0005 = - 7381329420516065 / 2 ^ 47 \<and>
   rescale 105 next_0005 = - 7381329420516065 / 2 ^ 47 \<and>
   rescale 105 near_0005 = rescale 105 next_0005 \<and>
   rescale 105 near_0005 \<noteq> near_0005 * 105 - 105 / 2 \<and>
   (rescale 105 near_0005 + 105 / 2) / 105 \<noteq> near_0005 \<and>
   (rescale 105 next_0005 + 105 / 2) / 105 \<noteq> next_0005"
proof -
  have r1: "round64 near_0005 = near_0005" and r2: "round64 next_0005 = next_0005"
    by (simp_all add: near_0005_def next_0005_def float64_eval)
  have v1: "rescale 105 near_0005 = - 7381329420516065 / 2 ^ 47"
    by (simp add: near_0005_def float64_eval)
  have v2: "rescale 105 next_0005 = - 7381329420516065 / 2 ^ 47"
    by (simp add: next_0005_def float64_eval)
  have o: "0 \<le> near_0005" "near_0005 < next_0005" "next_0005 \<le> 1"
    by (simp_all add: near_0005_def next_0005_def)
  have n1: "rescale 105 near_0005 \<noteq> near_0005 * 105 - 105 / 2"
    unfolding v1 by (simp add: near_0005_def)
  have n2: "(rescale 105 near_0005 + 105 / 2) / 105 \<noteq> near_0005"
    unfolding v1 by (simp add: near_0005_def)
  have n3: "(rescale 105 next_0005 + 105 / 2) / 105 \<noteq> next_0005"
    unfolding v2 by (simp add: next_0005_def)
  from r1 r2 o v1 v2 n1 n2 n3 show ?thesis by simp
qed


section \<open>Timestamps\<close>

lemma map_result_Inr:
  "map_result f xs = Inr ys \<Longrightarrow>
     length ys = length xs \<and> (\<forall>i < length xs. f (xs ! i) = Inr (ys ! i))"
proof (induction xs arbitrary: ys)
  case Nil
  then show ?case by simp
next
  case (Cons x xs)
  from Cons.prems obtain y ys' where y: "f x = Inr y" and r: "map_result f xs = Inr ys'"
    and e: "ys = y # ys'"
    by (auto simp: bind_result_Inr)
  from Cons.IH[OF r] y e show ?case by (auto simp: nth_Cons split: nat.splits)
qed

lemma first_period_Inr:
  "first_period md = Inr p \<Longrightarrow> period_no p = 1 \<and> p \<in> set (periods_frames md)"
proof -
  assume a: "first_period md = Inr p"
  then obtain ps where "filter (\<lambda>p. period_no p = 1) (periods_frames md) = p # ps"
    by (auto simp: first_period_def split: list.splits)
  then have "p \<in> set (filter (\<lambda>p. period_no p = 1) (periods_frames md))" by simp
  then show ?thesis by simp
qed

text \<open>
  Claim C5, as the code has it. When the timestamps can be computed, the metadata has a
  first row for period 1; with its start frame \<open>first_frame\<close> and start time, every event gets
  the start time plus \<open>(td_frame - first_frame) / frame_rate\<close> seconds rounded to the
  nearest microsecond (ties to even), and keeps all its other columns. The result is
  within half a microsecond of the exact offset and equal to it whenever the offset is a
  whole number of microseconds.
\<close>

theorem datetime_from_first_period_start:
  assumes "add_datetime md rows = Inr timed"
  shows "\<exists>p. first_period md = Inr p \<and> period_no p = 1 \<and> p \<in> set (periods_frames md) \<and>
           length timed = length rows \<and> (rows \<noteq> [] \<longrightarrow> frame_rate md \<noteq> 0) \<and>
           (\<forall>i < length rows. \<exists>x.
              num_of (td_frame (rows ! i)) = Some x \<and>
              event_row.truncate (timed ! i) = rows ! i \<and>
              datetime (timed ! i) =
                start_datetime_ed p +
                1000 * round_half_even
                         ((x - of_int (start_frame p)) / frame_rate md * 1000 * 1000) \<and>
              \<bar>of_int (datetime (timed ! i) - start_datetime_ed p) / 10 ^ 9
                 - (x - of_int (start_frame p)) / frame_rate md\<bar> \<le> 1 / (2 * 10 ^ 6) \<and>
              ((x - of_int (start_frame p)) / frame_rate md * 1000 * 1000 \<in> \<int> \<longrightarrow>
                 of_int (datetime (timed ! i) - start_datetime_ed p) / 10 ^ 9
                   = (x - of_int (start_frame p)) / frame_rate md))"
proof -
  from assms obtain p rel where p: "first_period md = Inr p"
    and rel: "map_result (\<lambda>r. rel_timedelta (start_frame p) (frame_rate md) (td_frame r)) rows
                = Inr rel"
    and t: "timed = map (\<lambda>(r, d). event_row.extend r
                                    (timed_row.fields (start_datetime_ed p + 1000 * d)))
                      (zip rows rel)"
    by (auto simp: add_datetime_def bind_result_Inr)
  note m = map_result_Inr[OF rel]
  have len: "length timed = length rows" using t m by simp
  have row: "\<exists>x. num_of (td_frame (rows ! i)) = Some x \<and> frame_rate md \<noteq> 0 \<and>
              event_row.truncate (timed ! i) = rows ! i \<and>
              datetime (timed ! i) =
                start_datetime_ed p +
                1000 * round_half_even
                         ((x - of_int (start_frame p)) / frame_rate md * 1000 * 1000) \<and>
              \<bar>of_int (datetime (timed ! i) - start_datetime_ed p) / 10 ^ 9
                 - (x - of_int (start_frame p)) / frame_rate md\<bar> \<le> 1 / (2 * 10 ^ 6) \<and>
              ((x - of_int (start_frame p)) / frame_rate md * 1000 * 1000 \<in> \<int> \<longrightarrow>
                 of_int (datetime (timed ! i) - start_datetime_ed p) / 10 ^ 9
                   = (x - of_int (start_frame p)) / frame_rate md)"
    if i: "i < length rows" for i
  proof -
    from m i have ri: "rel_timedelta (start_frame p) (frame_rate md) (td_frame (rows ! i))
                         = Inr (rel ! i)" by simp
    then obtain x where x: "num_of (td_frame (rows ! i)) = Some x"
      and fr: "frame_rate md \<noteq> 0"
      and d: "rel ! i = round_half_even
                          ((x - of_int (start_frame p)) / frame_rate md * 1000 * 1000)"
      by (auto simp: rel_timedelta_def timedelta_milliseconds_def
          split: option.splits if_splits)
    define y where "y = (x - of_int (start_frame p)) / frame_rate md * 1000 * 1000"
    define k where "k = round_half_even y"
    have ti: "timed ! i = event_row.extend (rows ! i)
                            (timed_row.fields (start_datetime_ed p + 1000 * k))"
      using t i m d by (simp add: k_def y_def)
    have tr: "event_row.truncate (timed ! i) = rows ! i"
      by (simp add: ti event_row.defs timed_row.defs)
    have dt: "datetime (timed ! i) = start_datetime_ed p + 1000 * k"
      by (simp add: ti event_row.defs timed_row.defs)
    have sec: "of_int (datetime (timed ! i) - start_datetime_ed p) / 10 ^ 9
                 = (of_int k :: real) / 10 ^ 6"
      by (simp add: dt)
    have off: "(x - of_int (start_frame p)) / frame_rate md = y / 10 ^ 6"
      using fr by (simp add: y_def field_simps)
    have "\<bar>of_int k - y\<bar> \<le> 1 / 2" unfolding k_def by (rule round_half_even_close)
    then have "\<bar>(of_int k - y) / 10 ^ 6\<bar> \<le> (1 / 2) / 10 ^ 6"
      by (simp add: divide_le_cancel)
    then have close: "\<bar>of_int (datetime (timed ! i) - start_datetime_ed p) / 10 ^ 9
                 - (x - of_int (start_frame p)) / frame_rate md\<bar> \<le> 1 / (2 * 10 ^ 6)"
      unfolding sec off by (simp add: diff_divide_distrib)
    have exact: "of_int (datetime (timed ! i) - start_datetime_ed p) / 10 ^ 9
                   = (x - of_int (start_frame p)) / frame_rate md" if "y \<in> \<int>"
    proof -
      from that obtain n where "y = of_int n" by (auto elim: Ints_cases)
      then have "of_int k = y" by (simp add: k_def round_half_even_of_int)
      then show ?thesis unfolding sec off by simp
    qed
    from x fr tr dt close exact show ?thesis
      unfolding k_def y_def by blast
  qed
  have "rows \<noteq> [] \<longrightarrow> frame_rate md \<noteq> 0"
    using row[of 0] by (cases rows) auto
  with p first_period_Inr[OF p] len row show ?thesis by blast
qed

definition example_metadata_30 :: metadata where
  "example_metadata_30 = example_metadata\<lparr>frame_rate := 30\<rparr>"

theorem datetime_from_first_period_start_witness:
  "add_datetime example_metadata [example_row, example_row\<lparr>td_frame := PInt 100\<rparr>] =
     Inr [event_row.extend example_row (timed_row.fields 40000000),
          event_row.extend (example_row\<lparr>td_frame := PInt 100\<rparr>) (timed_row.fields 0)] \<and>
   real_of_int 40000000 / 10 ^ 9 = (101 - 100) / 25 \<and>
   (\<exists>p. first_period example_metadata = Inr p \<and> period_no p = 1)"
proof -
  let ?rows = "[example_row, example_row\<lparr>td_frame := PInt 100\<rparr>]"
  have fp: "first_period example_metadata =
              Inr \<lparr>period_no = 1, start_frame = 100, start_datetime_ed = 0\<rparr>"
    by (simp add: first_period_def example_metadata_def)
  have fr: "frame_rate example_metadata = 25" by (simp add: example_metadata_def)
  have a: "add_datetime example_metadata ?rows =
     Inr [event_row.extend example_row (timed_row.fields 40000000),
          event_row.extend (example_row\<lparr>td_frame := PInt 100\<rparr>) (timed_row.fields 0)]"
    by (simp add: add_datetime_def fp fr rel_timedelta_def timedelta_milliseconds_def
        round_half_even_def example_row_def)
  from datetime_from_first_period_start[OF a]
  have "\<exists>p. first_period example_metadata = Inr p \<and> period_no p = 1" by blast
  with a show ?thesis by simp
qed

text \<open>At 30 frames per second one frame is a third of a tenth of a second, which no
  whole number of microseconds equals: the stored offset is 33333 microseconds.\<close>

theorem datetime_offset_is_rounded:
  "add_datetime example_metadata_30 [example_row] =
     Inr [event_row.extend example_row (timed_row.fields 33333000)] \<and>
   real_of_int (33333000 - 0) / 10 ^ 9 \<noteq> (101 - 100) / 30"
proof -
  have fp: "first_period example_metadata_30 =
              Inr \<lparr>period_no = 1, start_frame = 100, start_datetime_ed = 0\<rparr>"
    by (simp add: first_period_def example_metadata_30_def example_metadata_def)
  have fr: "frame_rate example_metadata_30 = 30" by (simp add: example_metadata_30_def)
  have "add_datetime example_metadata_30 [example_row] =
     Inr [event_row.extend example_row (timed_row.fields 33333000)]"
    by (simp add: add_datetime_def fp fr rel_timedelta_def timedelta_milliseconds_def
        round_half_even_def example_row_def)
  then show ?thesis by simp
qed

section \<open>Typed events\<close>

text \<open>\<open>xs[i]\<close> on a list, negative indices counting from the end.\<close>

definition py_index :: "'a list \<Rightarrow> int \<Rightarrow> 'a result" where
  "py_index xs i =
     (if 0 \<le> i \<and> i < int (length xs) then Inr (xs ! nat i)
      else if i < 0 \<and> - int (length xs) \<le> i then Inr (xs ! nat (int (length xs) + i))
      else Inl IndexError)"

text \<open>
  Modelled from the spec: the classes \<open>BaseOnBallEvent\<close>, \<open>ShotEvent\<close> and \<open>PassEvent\<close> of
  \<open>databallpy.events\<close>, which are not among the sources. The spec calls the event objects
  immutable value objects with shared base fields (ids, timing, location, team side) plus
  type-specific fields: a record of the keyword arguments of the constructor call, and a
  \<open>__post_init__\<close> that accepts the object or raises, passed as a parameter. \<open>xt\<close> is
  the field \<open>_xt\<close>; a \<open>float\<close> argument that is \<open>nan\<close> is \<open>None\<close>.
\<close>

record base_on_ball_event =
  event_id :: pyval
  period_id :: pyval
  minutes :: int
  seconds :: real
  datetime :: int
  start_x :: real
  start_y :: real
  team_id :: pyval
  pitch_size :: "real \<times> real"
  team_side :: string
  xt :: real

text \<open>The eleven base arguments, the same in the three builders (lines 328--338,
  366--376 and 403--413).\<close>

definition base_fields :: "timed_row \<Rightarrow> real \<times> real \<Rightarrow> pyval \<Rightarrow> base_on_ball_event" where
  "base_fields row pitch_dims home =
     \<lparr>event_id = event_row.event_id row,
      period_id = event_row.period_id row,
      minutes = event_row.minutes row,
      seconds = event_row.seconds row,
      datetime = timed_row.datetime row,
      start_x = event_row.start_x row,
      start_y = event_row.start_y row,
      team_id = event_row.team_id row,
      pitch_size = pitch_dims,
      team_side = (if py_eq (event_row.team_id row) home then ''home'' else ''away''),
      xt = - 1\<rparr>"

definition construct :: "('e \<Rightarrow> py_error option) \<Rightarrow> 'e \<Rightarrow> 'e result" where
  "construct post_init ev = (case post_init ev of Some e \<Rightarrow> Inl e | None \<Rightarrow> Inr ev)"

record shot_event = base_on_ball_event +
  player_id :: int
  shot_outcome :: string
  y_target :: "real option"
  z_target :: "real option"
  body_part :: "string option"
  type_of_play :: "string option"
  first_touch :: "bool option"
  created_oppertunity :: "string option"
  related_event_id :: int

text \<open>\<open>_get_shot_event\<close>: the index into \<open>["miss", "goal"]\<close> is evaluated before the
  constructor runs.\<close>

definition get_shot_event ::
  "(shot_event \<Rightarrow> py_error option) \<Rightarrow> utils \<Rightarrow> timed_row \<Rightarrow> real \<times> real \<Rightarrow> pyval
     \<Rightarrow> shot_event result" where
  "get_shot_event post_init u row pitch_dims home =
     bind_result (py_index [''miss'', ''goal''] (event_row.outcome row)) (\<lambda>label.
       construct post_init
         (base_on_ball_event.extend (base_fields row pitch_dims home)
            (shot_event.fields (event_row.player_id row) label None None None None None None
               (MISSING_INT u))))"

record pass_event = base_on_ball_event +
  player_id :: int
  outcome :: string
  end_x :: real
  end_y :: real
  pass_type :: string
  set_piece :: string

text \<open>\<open>_get_pass_event\<close>: the outcome column holds integers, so \<open>pd.isnull\<close> is false and
  the label is always the indexed one.\<close>

definition get_pass_event ::
  "(pass_event \<Rightarrow> py_error option) \<Rightarrow> timed_row \<Rightarrow> real \<times> real \<Rightarrow> pyval
     \<Rightarrow> pass_event result" where
  "get_pass_event post_init row pitch_dims home =
     bind_result (py_index [''unsuccessful'', ''successful''] (event_row.outcome row)) (\<lambda>label.
       construct post_init
         (base_on_ball_event.extend (base_fields row pitch_dims home)
            (pass_event.fields (event_row.player_id row) label (event_row.end_x row)
               (event_row.end_y row) ''not_specified'' ''unspecified_set_piece'')))"

text \<open>
  \<open>DribbleEvent\<close>, from \<open>dribble_event.py\<close>. \<open>__post_init__\<close> runs the base class's
  \<open>__post_init__\<close> and then \<open>_check_datatypes\<close>, whose four tests hold for every value of
  the field types below.
\<close>

record dribble_event = base_on_ball_event +
  player_id :: int
  related_event_id :: int
  duel_type :: "string option"
  outcome :: bool
  has_opponent :: bool

definition dribble_post_init ::
  "(base_on_ball_event \<Rightarrow> py_error option) \<Rightarrow> dribble_event \<Rightarrow> py_error option" where
  "dribble_post_init base_post_init ev = base_post_init (base_on_ball_event.truncate ev)"

text \<open>\<open>_get_dribble_event\<close>: \<open>bool(row.outcome)\<close> is true for every nonzero integer.\<close>

definition get_dribble_event ::
  "(base_on_ball_event \<Rightarrow> py_error option) \<Rightarrow> utils \<Rightarrow> timed_row \<Rightarrow> real \<times> real \<Rightarrow> pyval
     \<Rightarrow> dribble_event result" where
  "get_dribble_event base_post_init u row pitch_dims home =
     construct (dribble_post_init base_post_init)
       (base_on_ball_event.extend (base_fields row pitch_dims home)
          (dribble_event.fields (event_row.player_id row) (MISSING_INT u) None
             (event_row.outcome row \<noteq> 0) False))"

lemmas event_record_defs =
  base_on_ball_event.defs shot_event.defs pass_event.defs dribble_event.defs

lemma construct_Inr: "construct post_init ev = Inr ev' \<Longrightarrow> ev' = ev \<and> post_init ev = None"
  by (auto simp: construct_def split: option.splits)

lemma py_index_two:
  "py_index [a, b] i = Inr v \<Longrightarrow>
     (i = 0 \<or> i = - 2) \<and> v = a \<or> (i = 1 \<or> i = - 1) \<and> v = b"
proof -
  assume a: "py_index [a, b] i = Inr v"
  then have r: "- 2 \<le> i \<and> i < 2"
    by (auto simp: py_index_def Let_def split: if_splits)
  then consider "i = - 2" | "i = - 1" | "i = 0" | "i = 1" by linarith
  then show ?thesis using a by cases (simp_all add: py_index_def Let_def)
qed

text \<open>The base fields of an event object read back as the row's values.\<close>

definition copies_row :: "'a base_on_ball_event_scheme \<Rightarrow> timed_row \<Rightarrow> bool" where
  "copies_row ev row \<longleftrightarrow>
     event_id ev = event_row.event_id row \<and>
     period_id ev = event_row.period_id row \<and>
     minutes ev = event_row.minutes row \<and>
     seconds ev = event_row.seconds row \<and>
     datetime ev = timed_row.datetime row \<and>
     start_x ev = event_row.start_x row \<and>
     start_y ev = event_row.start_y row \<and>
     team_id ev = event_row.team_id row"

lemma truncate_extend:
  "base_on_ball_event.truncate (base_on_ball_event.extend b ext) = b"
  by (cases b) (simp add: base_on_ball_event.defs)

lemma dribble_outcome_extend:
  "dribble_event.outcome
     (base_on_ball_event.extend b (dribble_event.fields pid rel duel oc opp)) = oc"
  by (simp add: event_record_defs)

lemma copies_row_extend: "copies_row (base_on_ball_event.extend (base_fields row p h) ext) row"
  by (simp add: copies_row_def base_fields_def base_on_ball_event.defs)

definition example_timed_row :: "string \<Rightarrow> int \<Rightarrow> timed_row" where
  "example_timed_row label result =
     event_row.extend
       (example_row\<lparr>metrica_event := label,
                    databallpy_event := map_of metrica_databallpy_map label,
                    event_row.outcome := result\<rparr>)
       (timed_row.fields 40000000)"

text \<open>
  Claim C4, as the code has it. A shot, pass or dribble object built from a row reads
  back the row's \<open>event_id\<close>, \<open>period_id\<close>, \<open>minutes\<close>, \<open>seconds\<close>, \<open>datetime\<close>,
  \<open>start_x\<close>, \<open>start_y\<close>, \<open>team_id\<close> and \<open>player_id\<close> unchanged. The outcome is not
  copied but translated: a shot holds \<open>["miss", "goal"][outcome]\<close>, a pass
  \<open>["unsuccessful", "successful"][outcome]\<close>, a dribble \<open>bool(outcome)\<close>.
\<close>

theorem typed_events_copy_row_and_translate_outcome:
  "(get_shot_event shot_init u row pitch home = Inr s \<longrightarrow>
      copies_row s row \<and> shot_event.player_id s = event_row.player_id row \<and>
      py_index [''miss'', ''goal''] (event_row.outcome row) = Inr (shot_outcome s) \<and>
      (event_row.outcome row = 0 \<longrightarrow> shot_outcome s = ''miss'') \<and>
      (event_row.outcome row = 1 \<longrightarrow> shot_outcome s = ''goal'')) \<and>
   (get_pass_event pass_init row pitch home = Inr p \<longrightarrow>
      copies_row p row \<and> pass_event.player_id p = event_row.player_id row \<and>
      py_index [''unsuccessful'', ''successful''] (event_row.outcome row)
        = Inr (pass_event.outcome p) \<and>
      (event_row.outcome row = 0 \<longrightarrow> pass_event.outcome p = ''unsuccessful'') \<and>
      (event_row.outcome row = 1 \<longrightarrow> pass_event.outcome p = ''successful'')) \<and>
   (get_dribble_event base_init u row pitch home = Inr d \<longrightarrow>
      copies_row d row \<and> dribble_event.player_id d = event_row.player_id row \<and>
      dribble_event.outcome d = (event_row.outcome row \<noteq> 0))"
proof -
  have shot: "copies_row s row \<and> shot_event.player_id s = event_row.player_id row \<and>
      py_index [''miss'', ''goal''] (event_row.outcome row) = Inr (shot_outcome s) \<and>
      (event_row.outcome row = 0 \<longrightarrow> shot_outcome s = ''miss'') \<and>
      (event_row.outcome row = 1 \<longrightarrow> shot_outcome s = ''goal'')"
    if "get_shot_event shot_init u row pitch home = Inr s"
  proof -
    from that obtain label
      where l: "py_index [''miss'', ''goal''] (event_row.outcome row) = Inr label"
        and c: "construct shot_init
                 (base_on_ball_event.extend (base_fields row pitch home)
                   (shot_event.fields (event_row.player_id row) label None None None None
                      None None (MISSING_INT u))) = Inr s"
      by (auto simp: get_shot_event_def bind_result_Inr)
    from construct_Inr[OF c]
    have s: "s = base_on_ball_event.extend (base_fields row pitch home)
                   (shot_event.fields (event_row.player_id row) label None None None None
                      None None (MISSING_INT u))" by simp
    have "shot_outcome s = label" and "shot_event.player_id s = event_row.player_id row"
      by (simp_all add: s event_record_defs)
    moreover have "copies_row s row" by (simp add: s copies_row_extend)
    ultimately show ?thesis using l by (auto simp: py_index_def)
  qed
  have pass: "copies_row p row \<and> pass_event.player_id p = event_row.player_id row \<and>
      py_index [''unsuccessful'', ''successful''] (event_row.outcome row)
        = Inr (pass_event.outcome p) \<and>
      (event_row.outcome row = 0 \<longrightarrow> pass_event.outcome p = ''unsuccessful'') \<and>
      (event_row.outcome row = 1 \<longrightarrow> pass_event.outcome p = ''successful'')"
    if "get_pass_event pass_init row pitch home = Inr p"
  proof -
    from that obtain label
      where l: "py_index [''unsuccessful'', ''successful''] (event_row.outcome row) = Inr label"
        and c: "construct pass_init
                 (base_on_ball_event.extend (base_fields row pitch home)
                   (pass_event.fields (event_row.player_id row) label (event_row.end_x row)
                      (event_row.end_y row) ''not_specified'' ''unspecified_set_piece''))
                = Inr p"
      by (auto simp: get_pass_event_def bind_result_Inr)
    from construct_Inr[OF c]
    have p: "p = base_on_ball_event.extend (base_fields row pitch home)
                   (pass_event.fields (event_row.player_id row) label (event_row.end_x row)
                      (event_row.end_y row) ''not_specified'' ''unspecified_set_piece'')"
      by simp
    have "pass_event.outcome p = label" and "pass_event.player_id p = event_row.player_id row"
      by (simp_all add: p event_record_defs)
    moreover have "copies_row p row" by (simp add: p copies_row_extend)
    ultimately show ?thesis using l by (auto simp: py_index_def)
  qed
  have dribble: "copies_row d row \<and> dribble_event.player_id d = event_row.player_id row \<and>
      dribble_event.outcome d = (event_row.outcome row \<noteq> 0)"
    if "get_dribble_event base_init u row pitch home = Inr d"
  proof -
    from that have d: "d = base_on_ball_event.extend (base_fields row pitch home)
          (dribble_event.fields (event_row.player_id row) (MISSING_INT u) None
             (event_row.outcome row \<noteq> 0) False)"
      by (auto simp: get_dribble_event_def dest: construct_Inr)
    have "dribble_event.outcome d = (event_row.outcome row \<noteq> 0)"
      and "dribble_event.player_id d = event_row.player_id row"
      by (simp_all add: d event_record_defs)
    moreover have "copies_row d row" by (simp add: d copies_row_extend)
    ultimately show ?thesis by simp
  qed
  from shot pass dribble show ?thesis by blast
qed

theorem typed_events_copy_row_and_translate_outcome_witness:
  "(\<exists>s. get_shot_event (\<lambda>ev. None) example_utils (example_timed_row ''shot'' 0) (105, 68)
          (PStr ''A'') = Inr s \<and>
       event_id s = PInt 3 \<and> datetime s = 40000000 \<and> shot_event.player_id s = 7 \<and>
       shot_outcome s = ''miss'') \<and>
   (\<exists>p. get_pass_event (\<lambda>ev. None) (example_timed_row ''pass'' 1) (105, 68) (PStr ''A'')
          = Inr p \<and>
       event_id p = PInt 3 \<and> pass_event.outcome p = ''successful'') \<and>
   (\<exists>d. get_dribble_event (\<lambda>ev. None) example_utils (example_timed_row ''carry'' 0) (105, 68)
          (PStr ''A'') = Inr d \<and>
       event_id d = PInt 3 \<and> dribble_event.outcome d = False)"
proof -
  let ?row = "example_timed_row ''shot'' 0"
  have "\<exists>s. get_shot_event (\<lambda>ev. None) example_utils ?row (105, 68) (PStr ''A'') = Inr s"
    by (simp add: get_shot_event_def py_index_def construct_def example_timed_row_def
        event_row.defs timed_row.defs)
  then obtain s
    where g: "get_shot_event (\<lambda>ev. None) example_utils ?row (105, 68) (PStr ''A'') = Inr s" ..
  have r: "event_row.outcome ?row = 0" "event_row.event_id ?row = PInt 3"
    "timed_row.datetime ?row = 40000000" "event_row.player_id ?row = 7"
    by (simp_all add: example_timed_row_def example_row_def event_row.defs timed_row.defs)
  from typed_events_copy_row_and_translate_outcome[of "\<lambda>ev. None" example_utils ?row
      "(105, 68)" "PStr ''A''" s] g r
  have a: "event_id s = PInt 3 \<and> datetime s = 40000000 \<and> shot_event.player_id s = 7 \<and>
        shot_outcome s = ''miss''"
    by (simp add: copies_row_def)
  let ?prow = "example_timed_row ''pass'' 1"
  have "\<exists>p. get_pass_event (\<lambda>ev. None) ?prow (105, 68) (PStr ''A'') = Inr p"
    by (simp add: get_pass_event_def py_index_def construct_def example_timed_row_def
        event_row.defs timed_row.defs)
  then obtain p
    where gp: "get_pass_event (\<lambda>ev. None) ?prow (105, 68) (PStr ''A'') = Inr p" ..
  have rp: "event_row.outcome ?prow = 1" "event_row.event_id ?prow = PInt 3"
    by (simp_all add: example_timed_row_def example_row_def event_row.defs timed_row.defs)
  from typed_events_copy_row_and_translate_outcome[of _ example_utils ?prow
      "(105, 68)" "PStr ''A''" _ "\<lambda>ev. None" p] gp rp
  have b: "event_id p = PInt 3 \<and> pass_event.outcome p = ''successful''"
    by (simp add: copies_row_def)
  let ?drow = "example_timed_row ''carry'' 0"
  have "\<exists>d. get_dribble_event (\<lambda>ev. None) example_utils ?drow (105, 68) (PStr ''A'') = Inr d"
    by (simp add: get_dribble_event_def construct_def dribble_post_init_def)
  then obtain d
    where gd: "get_dribble_event (\<lambda>ev. None) example_utils ?drow (105, 68) (PStr ''A'')
                 = Inr d" ..
  have rd: "event_row.outcome ?drow = 0" "event_row.event_id ?drow = PInt 3"
    by (simp_all add: example_timed_row_def example_row_def event_row.defs timed_row.defs)
  from typed_events_copy_row_and_translate_outcome[of _ example_utils ?drow
      "(105, 68)" "PStr ''A''" _ _ _ "\<lambda>ev. None" d] gd rd
  have c: "event_id d = PInt 3 \<and> dribble_event.outcome d = False"
    by (simp add: copies_row_def)
  from g a gp b gd c show ?thesis by blast
qed

text \<open>The outcome field does not equal the row's value: a goal is stored as the text
  \<open>goal\<close>, and \<open>"goal" == 1\<close> is false.\<close>

theorem shot_outcome_is_a_label:
  "(case get_shot_event (\<lambda>ev. None) example_utils (example_timed_row ''shot'' 1) (105, 68)
           (PStr ''A'') of
      Inl e \<Rightarrow> False
    | Inr s \<Rightarrow> event_row.outcome (example_timed_row ''shot'' 1) = 1 \<and>
               shot_outcome s = ''goal'' \<and>
               \<not> py_eq (PStr (shot_outcome s))
                        (PInt (event_row.outcome (example_timed_row ''shot'' 1))))"
  by (simp add: get_shot_event_def py_index_def construct_def example_timed_row_def
      event_row.defs timed_row.defs shot_event.defs base_on_ball_event.defs)

section \<open>An unresolved dribble\<close>

text \<open>
  Claim C10. For a row whose outcome still is the sentinel \<open>MISSING_INT\<close>, a nonzero
  integer, \<open>_get_dribble_event\<close> builds the \<open>DribbleEvent\<close> with outcome \<open>True\<close> whenever the
  base class accepts the object, and what it returns is exactly what it returns for the
  same row with outcome 1: the typed event does not tell an unresolved dribble from a
  successful one.
\<close>

theorem unresolved_dribble_reads_as_successful:
  assumes "event_row.outcome row = MISSING_INT u" and "MISSING_INT u \<noteq> 0"
  shows "(base_post_init (base_fields row pitch home) = None \<longrightarrow>
            (\<exists>d. get_dribble_event base_post_init u row pitch home = Inr d \<and>
                  dribble_event.outcome d = True)) \<and>
         (\<forall>d. get_dribble_event base_post_init u row pitch home = Inr d \<longrightarrow>
               dribble_event.outcome d = True) \<and>
         get_dribble_event base_post_init u (event_row.outcome_update (\<lambda>_. 1) row) pitch home
           = get_dribble_event base_post_init u row pitch home"
proof -
  have nz: "event_row.outcome row \<noteq> 0" using assms by simp
  have same: "base_fields (event_row.outcome_update (\<lambda>_. 1) row) pitch home
                = base_fields row pitch home"
    by (simp add: base_fields_def)
  have a: "base_post_init (base_fields row pitch home) = None \<longrightarrow>
            (\<exists>d. get_dribble_event base_post_init u row pitch home = Inr d \<and>
                  dribble_event.outcome d = True)"
    using nz
    by (simp add: get_dribble_event_def construct_def dribble_post_init_def truncate_extend
        dribble_outcome_extend)
  have b: "\<forall>d. get_dribble_event base_post_init u row pitch home = Inr d \<longrightarrow>
               dribble_event.outcome d = True"
    using nz
    by (auto simp: get_dribble_event_def dribble_outcome_extend dest!: construct_Inr)
  have c: "get_dribble_event base_post_init u (event_row.outcome_update (\<lambda>_. 1) row) pitch home
           = get_dribble_event base_post_init u row pitch home"
    using nz by (simp add: get_dribble_event_def same)
  from a b c show ?thesis by blast
qed

theorem unresolved_dribble_reads_as_successful_witness:
  "event_row.outcome (example_timed_row ''carry'' (- 999)) = MISSING_INT example_utils \<and>
   MISSING_INT example_utils \<noteq> 0 \<and>
   (\<exists>d. get_dribble_event (\<lambda>ev. None) example_utils (example_timed_row ''carry'' (- 999))
           (105, 68) (PStr ''A'') = Inr d \<and> dribble_event.outcome d = True)"
proof -
  have a: "event_row.outcome (example_timed_row ''carry'' (- 999)) = MISSING_INT example_utils"
    by (simp add: example_timed_row_def example_utils_def event_row.defs timed_row.defs)
  have b: "MISSING_INT example_utils \<noteq> 0" by (simp add: example_utils_def)
  from unresolved_dribble_reads_as_successful[OF a b, of "\<lambda>ev. None" "(105, 68)" "PStr ''A''"]
  have "\<exists>d. get_dribble_event (\<lambda>ev. None) example_utils (example_timed_row ''carry'' (- 999))
           (105, 68) (PStr ''A'') = Inr d \<and> dribble_event.outcome d = True"
    by simp
  with a b show ?thesis by simp
qed

section \<open>An unresolved pass\<close>

text \<open>
  The pass builder indexes \<open>["unsuccessful", "successful"]\<close> with the row's outcome. For a
  pass that ended the stream the outcome still is the sentinel, and with a sentinel outside
  \<open>-2 .. 1\<close> the index is out of range: \<open>_get_pass_event\<close> raises \<open>IndexError\<close> and no
  \<open>PassEvent\<close> is built.
\<close>

theorem unresolved_pass_raises_index_error:
  assumes "event_row.outcome row = MISSING_INT u"
    and "MISSING_INT u < - 2 \<or> 1 < MISSING_INT u"
  shows "get_pass_event pass_init row pitch home = Inl IndexError"
  using assms by (auto simp: get_pass_event_def py_index_def)

theorem unresolved_pass_raises_index_error_witness:
  "event_row.outcome (example_timed_row ''pass'' (- 999)) = MISSING_INT example_utils \<and>
   MISSING_INT example_utils < - 2 \<and>
   get_pass_event (\<lambda>ev. None) (example_timed_row ''pass'' (- 999)) (105, 68) (PStr ''A'')
     = Inl IndexError"
proof -
  have a: "event_row.outcome (example_timed_row ''pass'' (- 999)) = MISSING_INT example_utils"
    by (simp add: example_timed_row_def example_utils_def event_row.defs timed_row.defs)
  have b: "MISSING_INT example_utils < - 2" by (simp add: example_utils_def)
  then have "MISSING_INT example_utils < - 2 \<or> 1 < MISSING_INT example_utils" by simp
  from unresolved_pass_raises_index_error[OF a this] a b show ?thesis by simp
qed

end
